theory Spec2Isabelle
  imports Main "HOL-Library.Sublist"
begin

section \<open>Python strings\<close>

text \<open>
  A Python \<open>str\<close> is a sequence of Unicode code points, so a string is a list of
  natural numbers here and not a list of 8-bit characters. \<open>u\<close> reads an ASCII literal.
\<close>

type_synonym ustr = "nat list"

definition u :: "string \<Rightarrow> ustr" where
  "u s = map of_char s"

text \<open>
  \<open>str.isspace\<close> per code point: the code points for which Python answers true
  (bidirectional class WS, B or S, or category Zs).
\<close>

definition is_space :: "nat \<Rightarrow> bool" where
  "is_space c =
     ((9 \<le> c \<and> c \<le> 13) \<or> (28 \<le> c \<and> c \<le> 32) \<or> c = 133 \<or> c = 160 \<or> c = 5760 \<or>
      (8192 \<le> c \<and> c \<le> 8202) \<or> c = 8232 \<or> c = 8233 \<or> c = 8239 \<or> c = 8287 \<or> c = 12288)"

text \<open>\<open>s.strip()\<close>: white space removed at both ends.\<close>

definition py_strip :: "ustr \<Rightarrow> ustr" where
  "py_strip s = rev (dropWhile is_space (rev (dropWhile is_space s)))"

text \<open>\<open>s.strip(chars)\<close>: the code points of \<open>chars\<close> removed at both ends.\<close>

definition strip_chars :: "ustr \<Rightarrow> ustr \<Rightarrow> ustr" where
  "strip_chars chars s =
     rev (dropWhile (\<lambda>c. c \<in> set chars) (rev (dropWhile (\<lambda>c. c \<in> set chars) s)))"

text \<open>
  \<open>s.lower()\<close>. The ASCII capitals move to their small letters. Two code points
  above ASCII lower-case to ASCII letters: U+0130 (capital I with dot above) gives
  \<open>i\<close> followed by U+0307, and U+212A (the Kelvin sign) gives \<open>k\<close>. Every other
  code point above 127 lower-cases to a non-empty sequence of code points above 127
  (Unicode tables up to 14.0); it is left as it is here, which \<open>slugify\<close> cannot
  observe since it tells only \<open>[a-z0-9]\<close> from the rest.
\<close>

definition lower_cp :: "nat \<Rightarrow> ustr" where
  "lower_cp c =
     (if 65 \<le> c \<and> c \<le> 90 then [c + 32]
      else if c = 0x130 then [0x69, 0x307]
      else if c = 0x212A then [0x6B]
      else [c])"

definition py_lower :: "ustr \<Rightarrow> ustr" where
  "py_lower s = concat (map lower_cp s)"

text \<open>The character class \<open>[a-z0-9]\<close> of the pattern, and the ASCII alphanumerics.\<close>

definition is_slug_char :: "nat \<Rightarrow> bool" where
  "is_slug_char c = ((97 \<le> c \<and> c \<le> 122) \<or> (48 \<le> c \<and> c \<le> 57))"

definition is_ascii_alnum :: "nat \<Rightarrow> bool" where
  "is_ascii_alnum c = (is_slug_char c \<or> (65 \<le> c \<and> c \<le> 90))"

text \<open>
  \<open>re.sub(r"[^a-z0-9]+", repl, s)\<close> for a class given by its complement \<open>keep\<close>:
  every maximal run of code points outside \<open>keep\<close> is replaced by \<open>repl\<close>.
\<close>

function re_sub_runs :: "(nat \<Rightarrow> bool) \<Rightarrow> ustr \<Rightarrow> ustr \<Rightarrow> ustr" where
  "re_sub_runs keep repl [] = []"
| "re_sub_runs keep repl (c # cs) =
     (if keep c then c # re_sub_runs keep repl cs
      else repl @ re_sub_runs keep repl (dropWhile (\<lambda>x. \<not> keep x) cs))"
  by pat_completeness auto
termination
  by (relation "measure (\<lambda>(keep, repl, s). length s)")
     (auto simp: length_dropWhile_le less_Suc_eq_le)

section \<open>The slug\<close>

datatype error =
    ValueError
  | EOFError
  | FileExistsError "ustr list"
  | IsADirectoryError "ustr list"
  | NotADirectoryError "ustr list"
  | FileNotFoundError "ustr list"

text \<open>
  \<^verbatim>\<open>
  def slugify(name: str) -> str:
      slug = re.sub(r"[^a-z0-9]+", "_", name.strip().lower()).strip("_")
      if not slug:
          raise ValueError("Project name must contain at least one alphanumeric character.")
      return slug
  \<close>
\<close>

definition slugify :: "ustr \<Rightarrow> error + ustr" where
  "slugify name =
     (let slug = strip_chars (u ''_'') (re_sub_runs is_slug_char (u ''_'') (py_lower (py_strip name)))
      in if slug = [] then Inl ValueError else Inr slug)"

section \<open>Lines, and \<open>textwrap.dedent\<close>\<close>

definition u_nl :: ustr where
  "u_nl = [10]"

text \<open>\<open>"\n".join(lines)\<close> and \<open>text.split("\n")\<close>.\<close>

fun join_nl :: "ustr list \<Rightarrow> ustr" where
  "join_nl [] = []"
| "join_nl [l] = l"
| "join_nl (l # m # ls) = l @ 10 # join_nl (m # ls)"

function split_nl :: "ustr \<Rightarrow> ustr list" where
  "split_nl text =
     (case dropWhile (\<lambda>c. c \<noteq> 10) text of
        [] \<Rightarrow> [text]
      | _ # rest \<Rightarrow> takeWhile (\<lambda>c. c \<noteq> 10) text # split_nl rest)"
  by pat_completeness auto
termination
proof (relation "measure length")
  fix s :: ustr and x rest
  assume "dropWhile (\<lambda>c. c \<noteq> 10) s = x # rest"
  then have "length (x # rest) \<le> length s"
    using length_dropWhile_le [of "\<lambda>c. c \<noteq> 10" s] by simp
  then show "(rest, s) \<in> measure length" by simp
qed simp

declare split_nl.simps [simp del]

text \<open>
  The library function, as CPython has it up to 3.13:
  \<^verbatim>\<open>
  _whitespace_only_re = re.compile('^[ \t]+$', re.MULTILINE)
  _leading_whitespace_re = re.compile('(^[ \t]*)(?:[^ \t\n])', re.MULTILINE)

  def dedent(text):
      margin = None
      text = _whitespace_only_re.sub('', text)
      indents = _leading_whitespace_re.findall(text)
      for indent in indents:
          if margin is None:
              margin = indent
          elif indent.startswith(margin):
              pass
          elif margin.startswith(indent):
              margin = indent
          else:
              for i, (x, y) in enumerate(zip(margin, indent)):
                  if x != y:
                      margin = margin[:i]
                      break
      if margin:
          text = re.sub(r'(?m)^' + margin, '', text)
      return text
  \<close>
  Both patterns are anchored at the start of a line and match inside one line, so the
  model works on the lines of the text.
\<close>

definition is_blank :: "nat \<Rightarrow> bool" where
  "is_blank c = (c = 32 \<or> c = 9)"

definition whitespace_only_sub :: "ustr list \<Rightarrow> ustr list" where
  "whitespace_only_sub ls = map (\<lambda>l. if list_all is_blank l then [] else l) ls"

definition leading_whitespace :: "ustr list \<Rightarrow> ustr list" where
  "leading_whitespace ls =
     map (takeWhile is_blank) (filter (\<lambda>l. dropWhile is_blank l \<noteq> []) ls)"

fun margin_step :: "ustr option \<Rightarrow> ustr \<Rightarrow> ustr option" where
  "margin_step None indent = Some indent"
| "margin_step (Some margin) indent =
     Some (if prefix margin indent then margin
           else if prefix indent margin then indent
           else map fst (takeWhile (\<lambda>(x, y). x = y) (zip margin indent)))"

definition remove_margin :: "ustr \<Rightarrow> ustr \<Rightarrow> ustr" where
  "remove_margin margin l = (if prefix margin l then drop (length margin) l else l)"

definition dedent :: "ustr \<Rightarrow> ustr" where
  "dedent text =
     (let ls = whitespace_only_sub (split_nl text) in
      case foldl margin_step None (leading_whitespace ls) of
        None \<Rightarrow> join_nl ls
      | Some margin \<Rightarrow>
          if margin = [] then join_nl ls else join_nl (map (remove_margin margin) ls))"

text \<open>
  What \<open>dedent\<close> does to one line when the margin is the eight blanks of the
  templates: a line of blanks only becomes empty, any other line loses the margin.
\<close>

definition dedent_line :: "ustr \<Rightarrow> ustr" where
  "dedent_line l = (if list_all is_blank l then [] else drop 8 l)"

section \<open>The templates\<close>

text \<open>
  Every \<open>build_*\<close> function is
  \<open>textwrap.dedent(<literal>).strip() + "\n"\<close>. The literal is given by its lines
  (the text is their \<open>join_nl\<close>), after Python has read its escapes and, in an
  f-string, the doubled braces; the parameters are spliced in where the f-string has
  them, before \<open>dedent\<close> runs.
\<close>

definition build_cmakelists_text :: "ustr \<Rightarrow> ustr list" where
  \<open>build_cmakelists_text project_name =
    [u ''        cmake_minimum_required(VERSION 3.21)'',
     [],
     u ''        project('' @ project_name @ u '' VERSION 0.1.0 LANGUAGES CXX)'',
     [],
     u ''        set(CMAKE_CXX_STANDARD 20)'',
     u ''        set(CMAKE_CXX_STANDARD_REQUIRED ON)'',
     u ''        set(CMAKE_EXPORT_COMPILE_COMMANDS ON)'',
     [],
     u ''        include(FetchContent)'',
     [],
     u ''        if(POLICY CMP0169)'',
     u ''            cmake_policy(SET CMP0169 OLD)'',
     u ''        endif()'',
     [],
     u ''        set(GLFW_BUILD_DOCS OFF CACHE INTERNAL "")'',
     u ''        set(GLFW_BUILD_TESTS OFF CACHE INTERNAL "")'',
     u ''        set(GLFW_BUILD_EXAMPLES OFF CACHE INTERNAL "")'',
     u ''        set(GLFW_INSTALL OFF CACHE INTERNAL "")'',
     [],
     u ''        FetchContent_Declare('',
     u ''            glfw'',
     u ''            GIT_REPOSITORY https://github.com/glfw/glfw.git'',
     u ''            GIT_TAG 3.4'',
     u ''        )'',
     [],
     u ''        FetchContent_Declare('',
     u ''            glm'',
     u ''            GIT_REPOSITORY https://github.com/g-truc/glm.git'',
     u ''            GIT_TAG 1.0.1'',
     u ''        )'',
     u ''        set(GLM_TEST_ENABLE OFF CACHE INTERNAL "")'',
     [],
     u ''        FetchContent_Declare('',
     u ''            glad'',
     u ''            GIT_REPOSITORY https://github.com/Dav1dde/glad.git'',
     u ''            GIT_TAG v0.1.36'',
     u ''            PATCH_COMMAND ${CMAKE_COMMAND} -DGLAD_SOURCE=<SOURCE_DIR> -P ${CMAKE_CURRENT_LIST_DIR}/cmake/patch_glad.cmake'',
     u ''        )'',
     [],
     u ''        set(GLAD_PROFILE "core" CACHE STRING "" FORCE)'',
     u ''        set(GLAD_API "gl=4.1" CACHE STRING "" FORCE)'',
     u ''        set(GLAD_GENERATOR "c" CACHE STRING "" FORCE)'',
     u ''        set(GLAD_EXTENSIONS "" CACHE STRING "" FORCE)'',
     [],
     u ''        FetchContent_Declare('',
     u ''            imgui'',
     u ''            GIT_REPOSITORY https://github.com/ocornut/imgui.git'',
     u ''            GIT_TAG v1.90.4'',
     u ''        )'',
     [],
     u ''        FetchContent_MakeAvailable(glfw glm glad)'',
     [],
     u ''        FetchContent_GetProperties(imgui)'',
     u ''        if(NOT imgui_POPULATED)'',
     u ''            FetchContent_Populate(imgui)'',
     u ''        endif()'',
     [],
     u ''        set(IMGUI_SOURCES'',
     u ''            ${imgui_SOURCE_DIR}/imgui.cpp'',
     u ''            ${imgui_SOURCE_DIR}/imgui_demo.cpp'',
     u ''            ${imgui_SOURCE_DIR}/imgui_draw.cpp'',
     u ''            ${imgui_SOURCE_DIR}/imgui_tables.cpp'',
     u ''            ${imgui_SOURCE_DIR}/imgui_widgets.cpp'',
     u ''            ${imgui_SOURCE_DIR}/backends/imgui_impl_glfw.cpp'',
     u ''            ${imgui_SOURCE_DIR}/backends/imgui_impl_opengl3.cpp'',
     u ''        )'',
     [],
     u ''        add_library(imgui_backend STATIC ${IMGUI_SOURCES})'',
     u ''        target_include_directories(imgui_backend PUBLIC'',
     u ''            ${imgui_SOURCE_DIR}'',
     u ''            ${imgui_SOURCE_DIR}/backends'',
     u ''        )'',
     u ''        target_link_libraries(imgui_backend PUBLIC glfw glad)'',
     u ''        target_compile_definitions(imgui_backend PUBLIC IMGUI_DISABLE_OBSOLETE_FUNCTIONS)'',
     [],
     u ''        add_executable(${PROJECT_NAME}'',
     u ''            src/main.cpp'',
     u ''            src/Application.cpp'',
     u ''        )'',
     [],
     u ''        target_include_directories(${PROJECT_NAME} PRIVATE src)'',
     u ''        target_link_libraries(${PROJECT_NAME} PRIVATE glfw glad imgui_backend glm::glm)'',
     u ''        target_compile_definitions(${PROJECT_NAME} PRIVATE IMGUI_IMPL_OPENGL_LOADER_GLAD)'',
     [],
     u ''        if (APPLE)'',
     u ''            target_link_libraries(${PROJECT_NAME} PRIVATE "-framework Cocoa" "-framework IOKit" "-framework CoreVideo")'',
     u ''        endif()'',
     u ''        '']\<close>

definition build_cmakelists :: "ustr \<Rightarrow> ustr" where
  "build_cmakelists project_name = py_strip (dedent (join_nl (build_cmakelists_text project_name))) @ u_nl"

definition build_main_cpp_text :: "ustr \<Rightarrow> ustr list" where
  \<open>build_main_cpp_text display_name =
    [u ''        #include "Application.hpp"'',
     [],
     u ''        #include <cstdio>'',
     u ''        #include <cstdlib>'',
     u ''        #include <exception>'',
     [],
     u ''        int main() {'',
     u ''            try {'',
     u ''                Application app("'' @ display_name @ u ''", 1280, 720);'',
     u ''                app.run();'',
     u ''            } catch (const std::exception& e) {'',
     u ''                std::fprintf(stderr, "Fatal error: %s'' @ [92] @ u ''n", e.what());'',
     u ''                return EXIT_FAILURE;'',
     u ''            }'',
     u ''            return EXIT_SUCCESS;'',
     u ''        }'',
     u ''        '']\<close>

definition build_main_cpp :: "ustr \<Rightarrow> ustr" where
  "build_main_cpp display_name = py_strip (dedent (join_nl (build_main_cpp_text display_name))) @ u_nl"

definition build_application_hpp_text :: "ustr list" where
  \<open>build_application_hpp_text =
    [u ''        #pragma once'',
     [],
     u ''        #include <string>'',
     [],
     u ''        struct GLFWwindow;'',
     [],
     u ''        class Application {'',
     u ''        public:'',
     u ''            Application(std::string title, int width, int height);'',
     u ''            ~Application();'',
     [],
     u ''            Application(const Application&) = delete;'',
     u ''            Application& operator=(const Application&) = delete;'',
     [],
     u ''            void run();'',
     [],
     u ''        private:'',
     u ''            void init();'',
     u ''            void shutdown();'',
     [],
     u ''            std::string title_;'',
     u ''            int width_;'',
     u ''            int height_;'',
     u ''            GLFWwindow* window_{nullptr};'',
     u ''            bool glfw_initialized_{false};'',
     u ''            bool imgui_initialized_{false};'',
     u ''        };'',
     u ''        '']\<close>

definition build_application_hpp :: "ustr" where
  "build_application_hpp = py_strip (dedent (join_nl build_application_hpp_text)) @ u_nl"

definition build_application_cpp_text :: "ustr list" where
  \<open>build_application_cpp_text =
    [u ''        #include "Application.hpp"'',
     [],
     u ''        #include <stdexcept>'',
     u ''        #include <utility>'',
     [],
     u ''        #ifndef GLFW_INCLUDE_NONE'',
     u ''        #define GLFW_INCLUDE_NONE'',
     u ''        #endif'',
     u ''        #include <GLFW/glfw3.h>'',
     u ''        #include <glad/glad.h>'',
     [],
     u ''        #include <imgui.h>'',
     u ''        #include <imgui_impl_glfw.h>'',
     u ''        #include <imgui_impl_opengl3.h>'',
     [],
     u ''        #include <glm/glm.hpp>'',
     u ''        #include <glm/gtc/type_ptr.hpp>'',
     [],
     u ''        #include <cstdio>'',
     [],
     u ''        namespace {'',
     u ''        void glfw_error_callback(int error, const char* description) {'',
     u ''            std::fprintf(stderr, "GLFW error (%d): %s'' @ [92] @ u ''n", error, description ? description : "no message");'',
     u ''        }'',
     u ''        } // namespace'',
     [],
     u ''        Application::Application(std::string title, int width, int height)'',
     u ''            : title_(std::move(title)), width_(width), height_(height) {'',
     u ''            init();'',
     u ''        }'',
     [],
     u ''        Application::~Application() {'',
     u ''            shutdown();'',
     u ''        }'',
     [],
     u ''        void Application::init() {'',
     u ''            glfwSetErrorCallback(glfw_error_callback);'',
     u ''            if (!glfwInit()) {'',
     u ''                throw std::runtime_error("Failed to initialize GLFW.");'',
     u ''            }'',
     u ''            glfw_initialized_ = true;'',
     [],
     u ''            glfwWindowHint(GLFW_CONTEXT_VERSION_MAJOR, 4);'',
     u ''            glfwWindowHint(GLFW_CONTEXT_VERSION_MINOR, 1);'',
     u ''            glfwWindowHint(GLFW_OPENGL_PROFILE, GLFW_OPENGL_CORE_PROFILE);'',
     u ''        #if defined(__APPLE__)'',
     u ''            glfwWindowHint(GLFW_OPENGL_FORWARD_COMPAT, GL_TRUE);'',
     u ''        #endif'',
     [],
     u ''            window_ = glfwCreateWindow(width_, height_, title_.c_str(), nullptr, nullptr);'',
     u ''            if (!window_) {'',
     u ''                throw std::runtime_error("Failed to create GLFW window.");'',
     u ''            }'',
     [],
     u ''            glfwMakeContextCurrent(window_);'',
     u ''            glfwSwapInterval(1);'',
     [],
     u ''            if (!gladLoadGLLoader(reinterpret_cast<GLADloadproc>(glfwGetProcAddress))) {'',
     u ''                throw std::runtime_error("Failed to initialize GLAD.");'',
     u ''            }'',
     [],
     u ''            glfwSetFramebufferSizeCallback('',
     u ''                window_, [](GLFWwindow*, int width, int height) { glViewport(0, 0, width, height); });'',
     [],
     u ''            int framebuffer_width = 0;'',
     u ''            int framebuffer_height = 0;'',
     u ''            glfwGetFramebufferSize(window_, &framebuffer_width, &framebuffer_height);'',
     u ''            glViewport(0, 0, framebuffer_width, framebuffer_height);'',
     [],
     u ''            IMGUI_CHECKVERSION();'',
     u ''            ImGui::CreateContext();'',
     u ''            ImGuiIO& io = ImGui::GetIO();'',
     u ''            io.ConfigFlags |= ImGuiConfigFlags_NavEnableKeyboard;'',
     u ''            ImGui::StyleColorsDark();'',
     [],
     u ''            if (!ImGui_ImplGlfw_InitForOpenGL(window_, true)) {'',
     u ''                throw std::runtime_error("Failed to initialize Dear ImGui GLFW backend.");'',
     u ''            }'',
     u ''            if (!ImGui_ImplOpenGL3_Init("#version 410")) {'',
     u ''                throw std::runtime_error("Failed to initialize Dear ImGui OpenGL backend.");'',
     u ''            }'',
     [],
     u ''            imgui_initialized_ = true;'',
     u ''        }'',
     [],
     u ''        void Application::run() {'',
     u ''            if (!window_) {'',
     u ''                throw std::runtime_error("Application window is not available.");'',
     u ''            }'',
     [],
     u ''            glm::vec3 clear_color{0.10f, 0.13f, 0.17f};'',
     [],
     u ''            while (!glfwWindowShouldClose(window_)) {'',
     u ''                glfwPollEvents();'',
     [],
     u ''                ImGui_ImplOpenGL3_NewFrame();'',
     u ''                ImGui_ImplGlfw_NewFrame();'',
     u ''                ImGui::NewFrame();'',
     [],
     u ''                ImGui::Begin("Hello, ImGui");'',
     u ''                ImGui::Text("Welcome to %s", title_.c_str());'',
     u ''                ImGui::ColorEdit3("Clear Color", glm::value_ptr(clear_color));'',
     u ''                ImGui::Text("Renderer: %s", reinterpret_cast<const char*>(glGetString(GL_RENDERER)));'',
     u ''                ImGui::Text("OpenGL: %s", reinterpret_cast<const char*>(glGetString(GL_VERSION)));'',
     u ''                ImGui::End();'',
     [],
     u ''                ImGui::Render();'',
     [],
     u ''                glClearColor(clear_color.r, clear_color.g, clear_color.b, 1.0f);'',
     u ''                glClear(GL_COLOR_BUFFER_BIT);'',
     [],
     u ''                ImGui_ImplOpenGL3_RenderDrawData(ImGui::GetDrawData());'',
     [],
     u ''                glfwSwapBuffers(window_);'',
     u ''            }'',
     u ''        }'',
     [],
     u ''        void Application::shutdown() {'',
     u ''            if (imgui_initialized_) {'',
     u ''                ImGui_ImplOpenGL3_Shutdown();'',
     u ''                ImGui_ImplGlfw_Shutdown();'',
     u ''                ImGui::DestroyContext();'',
     u ''                imgui_initialized_ = false;'',
     u ''            } else if (ImGui::GetCurrentContext()) {'',
     u ''                ImGui::DestroyContext();'',
     u ''            }'',
     [],
     u ''            if (window_) {'',
     u ''                glfwDestroyWindow(window_);'',
     u ''                window_ = nullptr;'',
     u ''            }'',
     [],
     u ''            if (glfw_initialized_) {'',
     u ''                glfwTerminate();'',
     u ''                glfw_initialized_ = false;'',
     u ''            }'',
     u ''        }'',
     u ''        '']\<close>

definition build_application_cpp :: "ustr" where
  "build_application_cpp = py_strip (dedent (join_nl build_application_cpp_text)) @ u_nl"

definition build_readme_text :: "ustr \<Rightarrow> ustr \<Rightarrow> ustr list" where
  \<open>build_readme_text display_name slug =
    [u ''        # '' @ display_name,
     [],
     u ''        Generated OpenGL starter project using GLFW, GLAD, GLM, and Dear ImGui.'',
     [],
     u ''        ## Build'',
     [],
     u ''        ```bash'',
     u ''        cmake -S . -B build'',
     u ''        cmake --build build'',
     u ''        ```'',
     [],
     u ''        Or use the provided helper script:'',
     [],
     u ''        ```bash'',
     u ''        ./build.sh [Debug|Release|RelWithDebInfo|MinSizeRel] [-r|--run] [-fmt|--format]'',
     u ''        ```'',
     [],
     u ''        Flags (all optional):'',
     [],
     u ''        - `Debug|Release|RelWithDebInfo|MinSizeRel` '' @ [8212] @ u '' choose the CMake build type (default: `Debug`)'',
     u ''        - `-r`, `--run` '' @ [8212] @ u '' run the built binary after a successful build'',
     u ''        - `-fmt`, `--format` '' @ [8212] @ u '' run `./scripts/format-all.sh` before configuring (requires that script)'',
     [],
     u ''        ## Run'',
     [],
     u ''        ```bash'',
     u ''        ./build/'' @ slug,
     u ''        ```'',
     u ''        '']\<close>

definition build_readme :: "ustr \<Rightarrow> ustr \<Rightarrow> ustr" where
  "build_readme display_name slug = py_strip (dedent (join_nl (build_readme_text display_name slug))) @ u_nl"

definition build_build_script_text :: "ustr \<Rightarrow> ustr list" where
  \<open>build_build_script_text slug =
    [u ''        #!/usr/bin/env bash'',
     [],
     u ''        set -Eeuo pipefail'',
     [],
     u ''        trap '' @ [39] @ u ''echo "'' @ [10006] @ u '' error: ${BASH_SOURCE[0]}:$LINENO: ${BASH_COMMAND}" >&2'' @ [39] @ u '' ERR'',
     [],
     u ''        BUILD_DIR="${BUILD_DIR:-build}"'',
     u ''        RUN_AFTER_BUILD=0'',
     u ''        TYPE="Debug"'',
     u ''        APP_PATH="${APP_PATH:-bin/${TYPE}/'' @ slug @ u ''}"'',
     u ''        FORMAT_AFTER_BUILD=0'',
     [],
     u ''        SCRIPT_DIR="$(cd "$(dirname "${BASH_SOURCE[0]}")" >/dev/null 2>&1 && pwd)"'',
     [],
     u ''        cd "$SCRIPT_DIR"'',
     [],
     u ''        usage() {'',
     u ''          cat <<USAGE'',
     u ''        Usage: ${BASH_SOURCE[0]} [Debug|Release|RelWithDebInfo|MinSizeRel] [-r|--run]'',
     [],
     u ''        Arguments are optional and order-independent:'',
     u ''          Debug|Release|RelWithDebInfo|MinSizeRel  Build type (default: Debug)'',
     u ''          -r, --run                                Run the application after build'',
     u ''          -fmt, --format                           Run ./scripts/format-all.sh before configuring'',
     u ''          -h, --help                               Show this help message'',
     u ''        USAGE'',
     u ''        }'',
     [],
     u ''        while [[ $# -gt 0 ]]; do'',
     u ''          case "$1" in'',
     u ''          Debug | Release | RelWithDebInfo | MinSizeRel)'',
     u ''            TYPE="$1"'',
     u ''            ;;'',
     u ''          -r | --run)'',
     u ''            RUN_AFTER_BUILD=1'',
     u ''            ;;'',
     u ''          -fmt | --format)'',
     u ''            FORMAT_AFTER_BUILD=1'',
     u ''            ;;'',
     u ''          -h | --help)'',
     u ''            usage'',
     u ''            exit 0'',
     u ''            ;;'',
     u ''          *)'',
     u ''            echo "Unknown option: $1" >&2'',
     u ''            usage'',
     u ''            exit 1'',
     u ''            ;;'',
     u ''          esac'',
     u ''          shift'',
     u ''        done'',
     [],
     u ''        APP_PATH="${APP_PATH:-bin/${TYPE}/'' @ slug @ u ''}"'',
     u ''        SHOULD_RUN=$([[ $RUN_AFTER_BUILD -eq 1 ]] && echo "run" || echo "norun")'',
     [],
     u ''        resolve_executable() {'',
     u ''          local slug="'' @ slug @ u ''"'',
     u ''          local base="$BUILD_DIR"'',
     u ''          local declared="$APP_PATH"'',
     u ''          local candidates=()'',
     [],
     u ''          if [[ -n "$declared" ]]; then'',
     u ''            if [[ "$declared" = /* ]]; then'',
     u ''              candidates+=("$declared")'',
     u ''            else'',
     u ''              candidates+=("$base/$declared")'',
     u ''              candidates+=("$declared")'',
     u ''            fi'',
     u ''          fi'',
     [],
     u ''          candidates+=("$base/bin/${TYPE}/$slug" "$base/$slug" "$base/bin/$slug" "$base/${TYPE}/$slug")'',
     [],
     u ''          for candidate in "${candidates[@]}"; do'',
     u ''            [[ -n "$candidate" ]] || continue'',
     u ''            if [[ -x "$candidate" ]]; then'',
     u ''              echo "$candidate"'',
     u ''              return 0'',
     u ''            fi'',
     u ''          done'',
     u ''          return 1'',
     u ''        }'',
     [],
     u ''        source_oneapi_env() {'',
     u ''          # Candidate roots (user first), honor ONEAPI_ROOT if set'',
     u ''          local roots=()'',
     u ''          [[ -n "${ONEAPI_ROOT:-}" ]] && roots+=("$ONEAPI_ROOT")'',
     u ''          roots+=("$HOME/intel/oneapi" "/opt/intel/oneapi")'',
     u ''          local r path'',
     u ''          local candidates=()'',
     u ''          shopt -s nullglob'',
     u ''          for r in "${roots[@]}"; do'',
     u ''            candidates+=("$r/oneapi-vars.sh" "$r/setvars.sh")'',
     u ''            candidates+=("$r"/*/oneapi-vars.sh "$r"/*/setvars.sh)'',
     u ''          done'',
     u ''          local _saved_opts'',
     u ''          _saved_opts="$(set +o)"'',
     u ''          local _saved_errtrap'',
     u ''          _saved_errtrap="$(trap -p ERR || true)"'',
     u ''          trap - ERR'',
     [],
     u ''          for path in "${candidates[@]}"; do'',
     u ''            [[ -r "$path" ]] || continue'',
     u ''            set +e +u'',
     u ''            set +o pipefail'',
     u ''            source "$path" intel64 >/dev/null 2>&1 || source "$path" >/dev/null 2>&1'',
     u ''            local rc=$?'',
     u ''            eval "$_saved_opts"'',
     u ''            [[ -n "$_saved_errtrap" ]] && eval "$_saved_errtrap"'',
     [],
     u ''            if ((rc == 0)); then'',
     u ''              echo "'' @ [10003] @ u '' oneAPI environment sourced: $path"'',
     u ''              if [[ -n "${IPPROOT:-}" || -n "${ONEAPI_ROOT:-}" ]]; then'',
     u ''                return 0'',
     u ''              fi'',
     u ''              _saved_errtrap="$(trap -p ERR || true)"'',
     u ''              trap - ERR'',
     u ''            else'',
     u ''              _saved_errtrap="$(trap -p ERR || true)"'',
     u ''              trap - ERR'',
     u ''            fi'',
     u ''          done'',
     [],
     u ''          # Final restore (nothing found)'',
     u ''          eval "$_saved_opts"'',
     u ''          [[ -n "$_saved_errtrap" ]] && eval "$_saved_errtrap"'',
     u ''          echo "'' @ [9888] @ u '' Could not find a working oneAPI env script under $ONEAPI_ROOT, $HOME/intel/oneapi, or /opt/intel/oneapi." >&2'',
     u ''          echo "   (Unified layout: <root>/<version>/oneapi-vars.sh; component layout: <root>/setvars.sh)" >&2'',
     u ''          return 1'',
     u ''        }'',
     [],
     u ''        if [[ $FORMAT_AFTER_BUILD -eq 1 ]]; then'',
     u ''          echo "Formatting code before build..."'',
     u ''          ./scripts/format-all.sh'',
     u ''        fi'',
     [],
     u ''        cmake -B "$BUILD_DIR" '' @ [92],
     u ''          -DCMAKE_BUILD_TYPE="$TYPE" '' @ [92],
     u ''          -DCMAKE_EXPORT_COMPILE_COMMANDS=ON'',
     u ''        cmake --build "$BUILD_DIR" --parallel'',
     [],
     u ''        source_oneapi_env'',
     [],
     u ''        echo "Build completed."'',
     [],
     u ''        case "$SHOULD_RUN" in'',
     u ''        run)'',
     u ''          if executable_path="$(resolve_executable)"; then'',
     u ''            echo "Running application: $executable_path"'',
     u ''            "$executable_path"'',
     u ''          else'',
     u ''            echo "Build finished, but executable was not found (checked $APP_PATH and common defaults)." >&2'',
     u ''            exit 1'',
     u ''          fi'',
     u ''          ;;'',
     u ''        norun)'',
     u ''          echo "Done."'',
     u ''          ;;'',
     u ''        *)'',
     u ''          echo "Build finished '' @ [8212] @ u '' unknown run command: $SHOULD_RUN"'',
     u ''          exit 2'',
     u ''          ;;'',
     u ''        esac'',
     u ''        '']\<close>

definition build_build_script :: "ustr \<Rightarrow> ustr" where
  "build_build_script slug = py_strip (dedent (join_nl (build_build_script_text slug))) @ u_nl"

definition build_glad_patch_script_text :: "ustr list" where
  \<open>build_glad_patch_script_text =
    [u ''        if(NOT DEFINED GLAD_SOURCE)'',
     u ''          message(FATAL_ERROR "GLAD_SOURCE not provided to patch_glad.cmake")'',
     u ''        endif()'',
     [],
     u ''        set(_glad_cmake "${GLAD_SOURCE}/CMakeLists.txt")'',
     u ''        if(NOT EXISTS "${_glad_cmake}")'',
     u ''          message(FATAL_ERROR "Cannot find glad CMakeLists.txt at ${_glad_cmake}")'',
     u ''        endif()'',
     [],
     u ''        file(READ "${_glad_cmake}" _glad_contents)'',
     u ''        string(REPLACE "cmake_minimum_required(VERSION 3.0)" "cmake_minimum_required(VERSION 3.21)" _glad_contents "${_glad_contents}")'',
     u ''        file(WRITE "${_glad_cmake}" "${_glad_contents}")'',
     u ''        '']\<close>

definition build_glad_patch_script :: "ustr" where
  "build_glad_patch_script = py_strip (dedent (join_nl build_glad_patch_script_text)) @ u_nl"

definition build_gitignore_text :: "ustr list" where
  \<open>build_gitignore_text =
    [u ''        # Build artifacts'',
     u ''        /build/'',
     u ''        /cmake-build-*/'',
     u ''        /CMakeFiles/'',
     u ''        /Testing/'',
     u ''        CMakeCache.txt'',
     u ''        CMakeScripts/'',
     u ''        Makefile'',
     u ''        cmake_install.cmake'',
     u ''        install_manifest.txt'',
     u ''        compile_commands.json'',
     u ''        build.ninja'',
     u ''        *.ninja'',
     u ''        *.o'',
     u ''        *.obj'',
     u ''        *.lo'',
     u ''        *.la'',
     u ''        *.a'',
     u ''        *.so'',
     u ''        *.dylib'',
     u ''        *.dll'',
     u ''        *.exe'',
     u ''        *.pdb'',
     [],
     u ''        # External deps fetched by CMake'',
     u ''        /_deps/'',
     [],
     u ''        # IDE / editor metadata'',
     u ''        /.idea/'',
     u ''        /.vscode/'',
     u ''        *.code-workspace'',
     [],
     u ''        # Misc'',
     u ''        .DS_Store'',
     u ''        Thumbs.db'',
     u ''        '']\<close>

definition build_gitignore :: "ustr" where
  "build_gitignore = py_strip (dedent (join_nl build_gitignore_text)) @ u_nl"

definition build_ignore_file_text :: "ustr list" where
  \<open>build_ignore_file_text =
    [u ''        # Ignore bulky build output when searching (used by ripgrep / Telescope)'',
     u ''        build/'',
     u ''        cmake-build-*/'',
     u ''        _deps/'',
     u ''        '']\<close>

definition build_ignore_file :: "ustr" where
  "build_ignore_file = py_strip (dedent (join_nl build_ignore_file_text)) @ u_nl"

section \<open>Properties of the slug\<close>

lemma mem_dropWhile: "x \<in> set xs \<Longrightarrow> \<not> P x \<Longrightarrow> x \<in> set (dropWhile P xs)"
  by (induction xs) auto

lemma mem_strip_both:
  "x \<in> set xs \<Longrightarrow> \<not> P x \<Longrightarrow> x \<in> set (rev (dropWhile P (rev (dropWhile P xs))))"
  by (simp add: mem_dropWhile)

lemma sublist_strip_both: "sublist (rev (dropWhile P (rev (dropWhile P xs)))) xs"
proof -
  have "suffix (dropWhile P (rev (dropWhile P xs))) (rev (dropWhile P xs))"
    by (rule suffix_dropWhile)
  then have "sublist (dropWhile P (rev (dropWhile P xs))) (rev (dropWhile P xs))"
    by (rule suffix_imp_sublist)
  then have "sublist (rev (dropWhile P (rev (dropWhile P xs)))) (dropWhile P xs)"
    using sublist_rev [of "dropWhile P (rev (dropWhile P xs))" "rev (dropWhile P xs)"] by simp
  moreover have "sublist (dropWhile P xs) xs"
    by (rule suffix_imp_sublist) (rule suffix_dropWhile)
  ultimately show ?thesis by (rule sublist_order.order_trans)
qed

lemma strip_both_ends:
  assumes "rev (dropWhile P (rev (dropWhile P xs))) = ys" "ys \<noteq> []"
  shows "\<not> P (hd ys) \<and> \<not> P (last ys)"
proof -
  let ?a = "dropWhile P xs"
  let ?b = "dropWhile P (rev ?a)"
  have b: "?b \<noteq> []" using assms by auto
  then have "\<not> P (hd ?b)" by (rule hd_dropWhile)
  then have l: "\<not> P (last ys)" using assms b by (simp add: last_rev flip: assms(1))
  have a: "?a \<noteq> []"
  proof
    assume e: "?a = []"
    have "?b = []" unfolding e by simp
    with b show False by (simp only:)
  qed
  then have ha: "\<not> P (hd ?a)" by (rule hd_dropWhile)
  obtain zs where "rev ?a = zs @ ?b"
    using suffix_dropWhile [of P "rev ?a"] by (auto simp: suffix_def)
  then have "?a = rev ?b @ rev zs" by (metis rev_append rev_rev_ident)
  then have "hd ?a = hd (rev ?b)" using b by (metis hd_append2 rev_is_Nil_conv)
  then show ?thesis using ha l assms by simp
qed

lemma strip_both_id:
  "xs \<noteq> [] \<Longrightarrow> \<not> P (hd xs) \<Longrightarrow> \<not> P (last xs) \<Longrightarrow> rev (dropWhile P (rev (dropWhile P xs))) = xs"
proof -
  assume a: "xs \<noteq> []" "\<not> P (hd xs)" "\<not> P (last xs)"
  then have 1: "dropWhile P xs = xs" by (cases xs) auto
  have "rev xs \<noteq> []" "\<not> P (hd (rev xs))" using a by (auto simp: hd_rev)
  then have "dropWhile P (rev xs) = rev xs" by (cases "rev xs") auto
  with 1 show ?thesis by simp
qed

lemma re_sub_runs_set:
  "set (re_sub_runs keep repl s) \<subseteq> {c \<in> set s. keep c} \<union> set repl"
  by (induction keep repl s rule: re_sub_runs.induct) (auto dest: set_dropWhileD)

lemma re_sub_runs_keep_mem:
  "c \<in> set s \<Longrightarrow> keep c \<Longrightarrow> c \<in> set (re_sub_runs keep repl s)"
  by (induction keep repl s rule: re_sub_runs.induct) (auto simp: mem_dropWhile)

lemma re_sub_runs_after_run:
  "re_sub_runs keep repl (dropWhile (\<lambda>x. \<not> keep x) cs) = [] \<or>
   keep (hd (re_sub_runs keep repl (dropWhile (\<lambda>x. \<not> keep x) cs)))"
proof (cases "dropWhile (\<lambda>x. \<not> keep x) cs")
  case Nil
  show ?thesis unfolding Nil by simp
next
  case (Cons d ds)
  then have "keep d" using hd_dropWhile [of "\<lambda>x. \<not> keep x" cs] by auto
  with Cons show ?thesis by simp
qed

lemma re_sub_runs_no_double:
  "\<not> keep r \<Longrightarrow> \<not> sublist [r, r] (re_sub_runs keep [r] s)"
proof (induction keep "[r]" s rule: re_sub_runs.induct)
  case (1 keep)
  then show ?case by simp
next
  case (2 keep c cs)
  show ?case
  proof (cases "keep c")
    case True
    with 2 show ?thesis by (auto simp: sublist_Cons_right)
  next
    case False
    let ?t = "re_sub_runs keep [r] (dropWhile (\<lambda>x. \<not> keep x) cs)"
    have "\<not> prefix [r] ?t"
      using re_sub_runs_after_run [of keep "[r]" cs] "2.prems" by (cases ?t) auto
    with 2 False show ?thesis by (auto simp: sublist_Cons_right)
  qed
qed

lemma re_sub_runs_id:
  "list_all (\<lambda>c. keep c \<or> c = r) s \<Longrightarrow> \<not> keep r \<Longrightarrow> \<not> sublist [r, r] s \<Longrightarrow> re_sub_runs keep [r] s = s"
proof (induction s)
  case Nil
  then show ?case by simp
next
  case (Cons c cs)
  then have ih: "re_sub_runs keep [r] cs = cs" by (auto simp: sublist_Cons_right)
  show ?case
  proof (cases "keep c")
    case True
    with ih show ?thesis by simp
  next
    case False
    then have c: "c = r" using Cons.prems by simp
    have "dropWhile (\<lambda>x. \<not> keep x) cs = cs"
    proof (cases cs)
      case Nil then show ?thesis by simp
    next
      case (Cons d ds)
      then have "d \<noteq> r" using Cons.prems(3) c by (auto simp: sublist_Cons_right)
      then have "keep d" using Cons.prems(1) Cons by auto
      then show ?thesis using Cons by simp
    qed
    with ih False c show ?thesis by simp
  qed
qed


lemma slug_char_not_space: "is_slug_char c \<Longrightarrow> \<not> is_space c"
  by (auto simp: is_slug_char_def is_space_def)

lemma lower_cp_space: "is_space x \<Longrightarrow> lower_cp x = [x]"
  by (auto simp: is_space_def lower_cp_def)

lemma lower_cp_slug_char: "is_slug_char c \<or> c = 95 \<Longrightarrow> lower_cp c = [c]"
  by (auto simp: is_slug_char_def lower_cp_def)

lemma py_strip_sublist: "sublist (py_strip s) s"
  unfolding py_strip_def by (rule sublist_strip_both)

lemma strip_chars_sublist: "sublist (strip_chars cs s) s"
  unfolding strip_chars_def by (rule sublist_strip_both)

lemma lower_strip_mem:
  assumes "c \<in> set (py_lower name)" "is_slug_char c"
  shows "c \<in> set (py_lower (py_strip name))"
proof -
  from assms(1) obtain x where x: "x \<in> set name" "c \<in> set (lower_cp x)"
    by (auto simp: py_lower_def)
  have "\<not> is_space x"
  proof
    assume "is_space x"
    with x(2) have "c = x" by (simp add: lower_cp_space)
    with \<open>is_space x\<close> assms(2) show False by (simp add: slug_char_not_space)
  qed
  with x(1) have "x \<in> set (py_strip name)"
    unfolding py_strip_def by (rule mem_strip_both)
  with x(2) show ?thesis by (auto simp: py_lower_def)
qed

lemma lower_strip_subset: "set (py_lower (py_strip name)) \<subseteq> set (py_lower name)"
  using set_mono_sublist [OF py_strip_sublist [of name]] by (auto simp: py_lower_def)

lemma ascii_alnum_lower:
  "list_ex is_ascii_alnum name \<Longrightarrow> list_ex is_slug_char (py_lower name)"
proof -
  assume "list_ex is_ascii_alnum name"
  then obtain x where x: "x \<in> set name" "is_ascii_alnum x" by (auto simp: list_ex_iff)
  then have "\<exists>c \<in> set (lower_cp x). is_slug_char c"
    by (auto simp: is_ascii_alnum_def is_slug_char_def lower_cp_def)
  with x(1) show ?thesis by (auto simp: list_ex_iff py_lower_def)
qed

lemma slugify_cases:
  "slugify name = Inl ValueError \<or> (\<exists>slug. slug \<noteq> [] \<and> slugify name = Inr slug)"
  by (simp add: slugify_def Let_def)

lemma slugify_Inr_shape:
  assumes "slugify name = Inr slug"
  shows "slug \<noteq> []"
    and "list_all (\<lambda>c. is_slug_char c \<or> c = 95) slug"
    and "hd slug \<noteq> 95" and "last slug \<noteq> 95"
    and "\<not> sublist [95, 95] slug"
proof -
  let ?t = "re_sub_runs is_slug_char [95] (py_lower (py_strip name))"
  have s: "slug = strip_chars [95] ?t" and ne: "slug \<noteq> []"
    using assms by (auto simp: slugify_def Let_def u_def split: if_splits)
  show "slug \<noteq> []" by (rule ne)
  have sub: "sublist slug ?t" unfolding s by (rule strip_chars_sublist)
  have "set slug \<subseteq> set ?t" using sub by (rule set_mono_sublist)
  also have "\<dots> \<subseteq> {c. is_slug_char c} \<union> {95}"
    using re_sub_runs_set [of is_slug_char "[95]" "py_lower (py_strip name)"] by auto
  finally show "list_all (\<lambda>c. is_slug_char c \<or> c = 95) slug"
    by (auto simp: list_all_iff)
  have "rev (dropWhile (\<lambda>c. c \<in> set [95]) (rev (dropWhile (\<lambda>c. c \<in> set [95]) ?t))) = slug"
    unfolding s strip_chars_def by simp
  from strip_both_ends [OF this ne] show "hd slug \<noteq> 95" and "last slug \<noteq> 95" by simp_all
  have "\<not> sublist [95, 95] ?t"
    by (rule re_sub_runs_no_double) (simp add: is_slug_char_def)
  with sub show "\<not> sublist [95, 95] slug"
    using sublist_order.order_trans by blast
qed

lemma slugify_Inr_iff:
  "(\<exists>slug. slugify name = Inr slug) = list_ex is_slug_char (py_lower name)"
proof
  assume "\<exists>slug. slugify name = Inr slug"
  then obtain slug where a: "slugify name = Inr slug" ..
  let ?t = "re_sub_runs is_slug_char [95] (py_lower (py_strip name))"
  from slugify_Inr_shape [OF a] have "slug \<noteq> []" "hd slug \<noteq> 95"
    "list_all (\<lambda>c. is_slug_char c \<or> c = 95) slug" by blast+
  then have h: "hd slug \<in> set slug" "is_slug_char (hd slug)"
    by (auto simp: list_all_iff)
  have "slug = strip_chars [95] ?t"
    using a by (auto simp: slugify_def Let_def u_def split: if_splits)
  then have "set slug \<subseteq> set ?t"
    using set_mono_sublist [OF strip_chars_sublist [of "[95]" ?t]] by simp
  with h have "hd slug \<in> set ?t" by auto
  with h(2) have "hd slug \<in> set (py_lower (py_strip name))"
    using re_sub_runs_set [of is_slug_char "[95]" "py_lower (py_strip name)"]
    by (auto simp: is_slug_char_def)
  with lower_strip_subset have "hd slug \<in> set (py_lower name)" by auto
  with h(2) show "list_ex is_slug_char (py_lower name)" by (auto simp: list_ex_iff)
next
  assume "list_ex is_slug_char (py_lower name)"
  then obtain c where c: "c \<in> set (py_lower name)" "is_slug_char c"
    by (auto simp: list_ex_iff)
  let ?t = "re_sub_runs is_slug_char [95] (py_lower (py_strip name))"
  from c have "c \<in> set (py_lower (py_strip name))" by (rule lower_strip_mem)
  with c(2) have "c \<in> set ?t" by (simp add: re_sub_runs_keep_mem)
  moreover have "\<not> c \<in> set [95]" using c(2) by (auto simp: is_slug_char_def)
  ultimately have "c \<in> set (strip_chars [95] ?t)"
    unfolding strip_chars_def by (rule mem_strip_both)
  then have "strip_chars [95] ?t \<noteq> []" by auto
  then show "\<exists>slug. slugify name = Inr slug" by (simp add: slugify_def Let_def u_def)
qed

lemma concat_map_singletons: "(\<And>x. x \<in> set xs \<Longrightarrow> f x = [x]) \<Longrightarrow> concat (map f xs) = xs"
  by (induction xs) auto

lemma slugify_fixpoint:
  assumes "slugify name = Inr slug"
  shows "slugify slug = Inr slug"
proof -
  note sh = slugify_Inr_shape [OF assms]
  have mem: "\<And>c. c \<in> set slug \<Longrightarrow> is_slug_char c \<or> c = 95"
    using sh(2) by (auto simp: list_all_iff)
  have "hd slug \<in> set slug" "last slug \<in> set slug" using sh(1) by auto
  then have e: "is_slug_char (hd slug)" "is_slug_char (last slug)"
    using mem sh(3,4) by blast+
  then have "\<not> is_space (hd slug)" "\<not> is_space (last slug)"
    by (auto dest: slug_char_not_space)
  with sh(1) have 1: "py_strip slug = slug"
    unfolding py_strip_def by (rule strip_both_id)
  have 2: "py_lower slug = slug"
    unfolding py_lower_def using mem by (intro concat_map_singletons lower_cp_slug_char)
  have 3: "re_sub_runs is_slug_char [95] slug = slug"
    using sh(2) _ sh(5) by (rule re_sub_runs_id) (simp add: is_slug_char_def)
  have "\<not> hd slug \<in> set [95]" "\<not> last slug \<in> set [95]" using sh(3,4) by simp_all
  with sh(1) have 4: "strip_chars [95] slug = slug"
    unfolding strip_chars_def by (rule strip_both_id)
  show ?thesis using sh(1) by (simp add: slugify_def u_def 1 2 3 4)
qed

lemmas slug_eval = slugify_def u_def py_strip_def py_lower_def lower_cp_def is_space_def
  strip_chars_def is_slug_char_def is_ascii_alnum_def

text \<open>
  Claim C1. For every display name whose lower-cased form contains an ASCII alphanumeric
  character, \<open>slugify\<close> returns a non-empty string over \<open>[a-z0-9]\<close> and the separator
  \<open>_\<close>, with no leading separator, no trailing separator and no two consecutive
  separators; and the slug of \<open>My Game!!\<close> is \<open>my_game\<close>.
\<close>

theorem slugify_shape:
  "(list_ex is_ascii_alnum (py_lower name) \<longrightarrow>
      (\<exists>slug. slugify name = Inr slug \<and> slug \<noteq> [] \<and>
         list_all (\<lambda>c. is_slug_char c \<or> c = 95) slug \<and>
         \<not> prefix (u ''_'') slug \<and> \<not> suffix (u ''_'') slug \<and> \<not> sublist (u ''__'') slug)) \<and>
   slugify (u ''My Game!!'') = Inr (u ''my_game'')"
proof (intro conjI impI)
  assume "list_ex is_ascii_alnum (py_lower name)"
  then obtain c where c: "c \<in> set (py_lower name)" "is_ascii_alnum c"
    by (auto simp: list_ex_iff)
  from c(1) obtain x where "c \<in> set (lower_cp x)" by (auto simp: py_lower_def)
  with c(2) have "is_slug_char c"
    by (auto simp: lower_cp_def is_ascii_alnum_def is_slug_char_def split: if_splits)
  with c(1) have "list_ex is_slug_char (py_lower name)" by (auto simp: list_ex_iff)
  then obtain slug where a: "slugify name = Inr slug" using slugify_Inr_iff by blast
  note sh = slugify_Inr_shape [OF a]
  have "\<not> prefix [95] slug" using sh(1,3) by (cases slug) auto
  moreover have "\<not> suffix [95] slug" using sh(1,4) by (auto simp: suffix_def)
  ultimately show "\<exists>slug. slugify name = Inr slug \<and> slug \<noteq> [] \<and>
         list_all (\<lambda>c. is_slug_char c \<or> c = 95) slug \<and>
         \<not> prefix (u ''_'') slug \<and> \<not> suffix (u ''_'') slug \<and> \<not> sublist (u ''__'') slug"
    using a sh by (auto simp: u_def)
next
  show "slugify (u ''My Game!!'') = Inr (u ''my_game'')" by (simp add: slug_eval)
qed

theorem slugify_shape_witness:
  "list_ex is_ascii_alnum (py_lower (u ''My Game!!'')) \<and>
   (\<exists>slug. slugify (u ''My Game!!'') = Inr slug \<and> slug \<noteq> [] \<and>
         list_all (\<lambda>c. is_slug_char c \<or> c = 95) slug \<and>
         \<not> prefix (u ''_'') slug \<and> \<not> suffix (u ''_'') slug \<and> \<not> sublist (u ''__'') slug)"
proof -
  have h: "list_ex is_ascii_alnum (py_lower (u ''My Game!!''))" by (simp add: slug_eval)
  with slugify_shape [of "u ''My Game!!''"] show ?thesis by blast
qed

text \<open>
  Claim C7, as the code has it. \<open>slugify\<close> raises the validation error if and only if
  its input, once lower-cased, contains no character of \<open>[a-z0-9]\<close>; otherwise it
  returns a slug. \<open>***\<close> and three blanks raise. The function is a HOL function of its
  argument alone: deterministic and without effects.
\<close>

theorem slugify_error_iff:
  "(slugify name = Inl ValueError) = (\<not> list_ex is_slug_char (py_lower name)) \<and>
   (\<exists>slug. slugify name = Inr slug) = list_ex is_slug_char (py_lower name) \<and>
   slugify (u ''***'') = Inl ValueError \<and> slugify (u ''   '') = Inl ValueError"
proof -
  have "(slugify name = Inl ValueError) = (\<not> (\<exists>slug. slugify name = Inr slug))"
    using slugify_cases [of name] by auto
  then show ?thesis by (simp add: slugify_Inr_iff) (simp add: slug_eval)
qed

text \<open>
  Claim C7 as stated fails: the Kelvin sign U+212A is no ASCII alphanumeric character,
  yet Python lower-cases it to \<open>k\<close>, and \<open>slugify\<close> returns the slug \<open>k\<close>.
\<close>

theorem slugify_kelvin_counterexample:
  "\<not> list_ex is_ascii_alnum [0x212A] \<and> slugify [0x212A] = Inr (u ''k'')"
  by (simp add: slug_eval)

text \<open>
  Claim C9. \<open>slugify\<close> is idempotent: for every input with an ASCII alphanumeric
  character it returns a slug, and the slug of that slug is the slug again.
\<close>

theorem slugify_idempotent:
  "list_ex is_ascii_alnum x \<Longrightarrow> \<exists>s. slugify x = Inr s \<and> slugify s = Inr s"
proof -
  assume "list_ex is_ascii_alnum x"
  then have "list_ex is_slug_char (py_lower x)" by (rule ascii_alnum_lower)
  then obtain s where "slugify x = Inr s" using slugify_Inr_iff by blast
  then show ?thesis using slugify_fixpoint by blast
qed

theorem slugify_idempotent_witness:
  "list_ex is_ascii_alnum (u ''My Game!!'') \<and>
   slugify (u ''My Game!!'') = Inr (u ''my_game'') \<and> slugify (u ''my_game'') = Inr (u ''my_game'')"
proof -
  have h: "list_ex is_ascii_alnum (u ''My Game!!'')" by (simp add: slug_eval)
  have e: "slugify (u ''My Game!!'') = Inr (u ''my_game'')" by (simp add: slug_eval)
  from slugify_idempotent [OF h] e h show ?thesis by auto
qed

section \<open>Properties of lines and of \<open>dedent\<close>\<close>

lemma split_nl_no_nl: "10 \<notin> set l \<Longrightarrow> split_nl l = [l]"
proof -
  assume "10 \<notin> set l"
  then have "dropWhile (\<lambda>c. c \<noteq> 10) l = []" by (auto simp: dropWhile_eq_Nil_conv)
  then show ?thesis by (subst split_nl.simps) (simp only: list.case)
qed

lemma split_nl_line: "10 \<notin> set l \<Longrightarrow> split_nl (l @ 10 # rest) = l # split_nl rest"
proof -
  assume a: "10 \<notin> set l"
  then have d: "dropWhile (\<lambda>c. c \<noteq> 10) (l @ 10 # rest) = 10 # rest"
    by (auto simp: dropWhile_append3 dropWhile_eq_Nil_conv)
  have t: "takeWhile (\<lambda>c. c \<noteq> 10) (l @ 10 # rest) = l"
    using a by (auto simp: takeWhile_tail takeWhile_eq_all_conv)
  show ?thesis by (subst split_nl.simps) (simp only: d t list.case)
qed

lemma split_nl_join_nl:
  "ls \<noteq> [] \<Longrightarrow> list_all (\<lambda>l. 10 \<notin> set l) ls \<Longrightarrow> split_nl (join_nl ls) = ls"
proof (induction ls rule: join_nl.induct)
  case 1
  then show ?case by simp
next
  case (2 l)
  then show ?case by (simp add: split_nl_no_nl)
next
  case (3 l m ls)
  then show ?case by (simp add: split_nl_line)
qed

lemma join_nl_snoc: "ls \<noteq> [] \<Longrightarrow> join_nl (ls @ [l]) = join_nl ls @ 10 # l"
  by (induction ls rule: join_nl.induct) auto

lemma hd_join_nl: "ls \<noteq> [] \<Longrightarrow> hd ls \<noteq> [] \<Longrightarrow> hd (join_nl ls) = hd (hd ls)"
  by (induction ls rule: join_nl.induct) auto

lemma join_nl_Nil_iff: "join_nl ls = [] \<longleftrightarrow> ls = [] \<or> ls = [[]]"
  by (induction ls rule: join_nl.induct) auto

lemma last_join_nl: "ls \<noteq> [] \<Longrightarrow> last ls \<noteq> [] \<Longrightarrow> last (join_nl ls) = last (last ls)"
proof (induction ls rule: join_nl.induct)
  case 1
  then show ?case by simp
next
  case (2 l)
  then show ?case by simp
next
  case (3 l m ls)
  have "join_nl (m # ls) \<noteq> []"
  proof
    assume "join_nl (m # ls) = []"
    then have "m # ls = [[]]" by (simp only: join_nl_Nil_iff) simp
    with "3.prems" show False by simp
  qed
  with 3 show ?case by simp
qed

lemma join_nl_nonempty: "ls \<noteq> [] \<Longrightarrow> hd ls \<noteq> [] \<Longrightarrow> join_nl ls \<noteq> []"
  by (induction ls rule: join_nl.induct) auto

lemma common_prefix_zip:
  "prefix m a \<Longrightarrow> prefix m i \<Longrightarrow> prefix m (map fst (takeWhile (\<lambda>(x, y). x = y) (zip a i)))"
proof (induction m arbitrary: a i)
  case Nil
  show ?case by (simp only: Nil_prefix)
next
  case (Cons x m)
  from Cons.prems(1) obtain a' where a: "a = x # a'" "prefix m a'"
    by (cases a) simp_all
  from Cons.prems(2) obtain i' where i: "i = x # i'" "prefix m i'"
    by (cases i) simp_all
  have "prefix m (map fst (takeWhile (\<lambda>(x, y). x = y) (zip a' i')))"
    using a(2) i(2) by (rule Cons.IH)
  then show ?case unfolding a(1) i(1) by simp
qed

lemma margin_step_prefix:
  assumes "prefix m a" "prefix m i"
  shows "\<exists>r. margin_step (Some a) i = Some r \<and> prefix m r \<and> (a = m \<or> i = m \<longrightarrow> r = m)"
proof -
  have "a = m \<Longrightarrow> prefix a i" using assms by simp
  moreover have "i = m \<Longrightarrow> \<not> prefix a i \<Longrightarrow> prefix i a" using assms by simp
  moreover have "i = m \<Longrightarrow> prefix a i \<Longrightarrow> a = m" using assms by (simp add: prefix_order.antisym)
  ultimately show ?thesis using assms by (auto simp: common_prefix_zip)
qed

lemma margin_fold_Some:
  "prefix m a \<Longrightarrow> list_all (prefix m) is \<Longrightarrow>
   \<exists>r. foldl margin_step (Some a) is = Some r \<and> prefix m r \<and> (a = m \<or> m \<in> set is \<longrightarrow> r = m)"
proof (induction "is" arbitrary: a)
  case Nil
  then show ?case by simp
next
  case (Cons i "is")
  from margin_step_prefix [of m a i] Cons.prems
  obtain r where r: "margin_step (Some a) i = Some r" "prefix m r" "a = m \<or> i = m \<longrightarrow> r = m"
    by auto
  from Cons.IH [OF r(2)] Cons.prems(2)
  obtain r' where "foldl margin_step (Some r) is = Some r'" "prefix m r'"
    "r = m \<or> m \<in> set is \<longrightarrow> r' = m" by auto
  with r show ?case by auto
qed

lemma margin_fold:
  assumes "list_all (prefix m) is" "m \<in> set is"
  shows "foldl margin_step None is = Some m"
proof (cases "is")
  case Nil
  with assms show ?thesis by simp
next
  case (Cons i is')
  with assms have "prefix m i" "list_all (prefix m) is'" "i = m \<or> m \<in> set is'" by auto
  with margin_fold_Some [of m i is'] Cons show ?thesis by auto
qed

text \<open>What \<open>dedent\<close> does to a line when the margin is \<open>m\<close>.\<close>

lemma takeWhile_blank_prefix:
  assumes "list_all is_blank m" "prefix m l"
  shows "prefix m (takeWhile is_blank l)"
proof -
  from assms(2) obtain r where "l = m @ r" by (auto simp: prefix_def)
  with assms(1) show ?thesis by (simp add: takeWhile_append2 list_all_iff)
qed

lemma dropWhile_not_all: "\<not> list_all P l \<Longrightarrow> dropWhile P l \<noteq> []"
  by (induction l) simp_all

lemma leading_whitespace_Cons:
  "leading_whitespace (whitespace_only_sub (l # ls)) =
     (if list_all is_blank l then [] else [takeWhile is_blank l]) @
     leading_whitespace (whitespace_only_sub ls)"
proof (cases "list_all is_blank l")
  case True
  then show ?thesis by (simp add: leading_whitespace_def whitespace_only_sub_def)
next
  case False
  then have "dropWhile is_blank l \<noteq> []" by (rule dropWhile_not_all)
  with False show ?thesis by (simp add: leading_whitespace_def whitespace_only_sub_def)
qed

lemma leading_whitespace_uniform:
  assumes "list_all is_blank m"
  shows "list_all (\<lambda>l. list_all is_blank l \<or> prefix m l) ls \<Longrightarrow>
         list_all (prefix m) (leading_whitespace (whitespace_only_sub ls))"
proof (induction ls)
  case Nil
  show ?case by (simp add: leading_whitespace_def whitespace_only_sub_def)
next
  case (Cons l ls)
  then have ih: "list_all (prefix m) (leading_whitespace (whitespace_only_sub ls))" by simp
  show ?case
  proof (cases "list_all is_blank l")
    case True
    with ih show ?thesis by (simp only: leading_whitespace_Cons if_True append_Nil)
  next
    case False
    with Cons.prems have "prefix m l" by simp
    with assms have "prefix m (takeWhile is_blank l)" by (rule takeWhile_blank_prefix)
    with ih False show ?thesis by (simp add: leading_whitespace_Cons)
  qed
qed

lemma leading_whitespace_mem:
  "list_ex (\<lambda>l. \<not> list_all is_blank l \<and> takeWhile is_blank l = m) ls \<Longrightarrow>
   m \<in> set (leading_whitespace (whitespace_only_sub ls))"
proof (induction ls)
  case Nil
  then show ?case by simp
next
  case (Cons l ls)
  show ?case
  proof (cases "\<not> list_all is_blank l \<and> takeWhile is_blank l = m")
    case True
    then show ?thesis by (simp add: leading_whitespace_Cons)
  next
    case False
    with Cons.prems have "list_ex (\<lambda>l. \<not> list_all is_blank l \<and> takeWhile is_blank l = m) ls"
      by auto
    then have "m \<in> set (leading_whitespace (whitespace_only_sub ls))" by (rule Cons.IH)
    then show ?thesis by (simp add: leading_whitespace_Cons)
  qed
qed

lemma remove_margin_uniform:
  assumes "m \<noteq> []"
  shows "list_all (\<lambda>l. list_all is_blank l \<or> prefix m l) ls \<Longrightarrow>
         map (remove_margin m) (whitespace_only_sub ls) =
         map (\<lambda>l. if list_all is_blank l then [] else drop (length m) l) ls"
proof (induction ls)
  case Nil
  show ?case by (simp add: whitespace_only_sub_def)
next
  case (Cons l ls)
  then have ih: "map (remove_margin m) (whitespace_only_sub ls) =
         map (\<lambda>l. if list_all is_blank l then [] else drop (length m) l) ls" by simp
  have w: "whitespace_only_sub (l # ls) =
           (if list_all is_blank l then [] else l) # whitespace_only_sub ls"
    by (simp add: whitespace_only_sub_def)
  show ?case
  proof (cases "list_all is_blank l")
    case True
    have "remove_margin m [] = []" using assms by (simp add: remove_margin_def)
    with True ih show ?thesis by (simp add: w)
  next
    case False
    with Cons.prems have "prefix m l" by simp
    then have "remove_margin m l = drop (length m) l" by (simp add: remove_margin_def)
    with False ih show ?thesis by (simp add: w)
  qed
qed

lemma dedent_uniform:
  assumes ne: "ls \<noteq> []" and nl: "list_all (\<lambda>l. 10 \<notin> set l) ls"
    and m: "m \<noteq> []" "list_all is_blank m"
    and pre: "list_all (\<lambda>l. list_all is_blank l \<or> prefix m l) ls"
    and ex: "list_ex (\<lambda>l. \<not> list_all is_blank l \<and> takeWhile is_blank l = m) ls"
  shows "dedent (join_nl ls) =
         join_nl (map (\<lambda>l. if list_all is_blank l then [] else drop (length m) l) ls)"
proof -
  have sp: "split_nl (join_nl ls) = ls" using ne nl by (rule split_nl_join_nl)
  have 1: "list_all (prefix m) (leading_whitespace (whitespace_only_sub ls))"
    using m(2) pre by (rule leading_whitespace_uniform)
  have 2: "m \<in> set (leading_whitespace (whitespace_only_sub ls))"
    using ex by (rule leading_whitespace_mem)
  have f: "foldl margin_step None (leading_whitespace (whitespace_only_sub ls)) = Some m"
    using 1 2 by (rule margin_fold)
  have r: "map (remove_margin m) (whitespace_only_sub ls) =
        map (\<lambda>l. if list_all is_blank l then [] else drop (length m) l) ls"
    using m(1) pre by (rule remove_margin_uniform)
  show ?thesis
    unfolding dedent_def sp Let_def f option.case r using m(1) by simp
qed

lemma py_strip_newline:
  assumes "x \<noteq> []" "\<not> is_space (hd x)" "\<not> is_space (last x)"
  shows "py_strip (x @ [10]) = x"
proof -
  have 1: "dropWhile is_space (x @ [10]) = x @ [10]"
    using assms(1,2) by (cases x) auto
  have 2: "dropWhile is_space (rev (x @ [10])) = rev x"
    using assms(1,3) by (cases "rev x") (auto simp: is_space_def last_rev hd_rev)
  show ?thesis by (simp only: py_strip_def 1 2 rev_rev_ident)
qed

lemma build_uniform:
  assumes nl: "list_all (\<lambda>l. 10 \<notin> set l) (ls @ [e])"
    and m: "m \<noteq> []" "list_all is_blank m"
    and pre: "list_all (\<lambda>l. list_all is_blank l \<or> prefix m l) (ls @ [e])"
    and ex: "list_ex (\<lambda>l. \<not> list_all is_blank l \<and> takeWhile is_blank l = m) (ls @ [e])"
    and e: "list_all is_blank e"
    and ne: "ls \<noteq> []"
    and first: "\<not> list_all is_blank (hd ls)" "drop (length m) (hd ls) \<noteq> []"
      "\<not> is_space (hd (drop (length m) (hd ls)))"
    and final: "\<not> list_all is_blank (last ls)" "drop (length m) (last ls) \<noteq> []"
      "\<not> is_space (last (last ls))"
  shows "py_strip (dedent (join_nl (ls @ [e]))) @ u_nl =
         join_nl (map (\<lambda>l. if list_all is_blank l then [] else drop (length m) l) (ls @ [e]))"
proof -
  define g where "g = (\<lambda>l. if list_all is_blank l then [] else drop (length m) l)"
  define x where "x = join_nl (map g ls)"
  have ne2: "ls @ [e] \<noteq> []" by simp
  have d: "dedent (join_nl (ls @ [e])) = join_nl (map g (ls @ [e]))"
    unfolding g_def by (rule dedent_uniform [OF ne2 nl m(1) m(2) pre ex])
  have ge: "g e = []" using e by (simp add: g_def)
  have mne: "map g ls \<noteq> []" using ne by simp
  have j: "join_nl (map g (ls @ [e])) = x @ [10]"
    using join_nl_snoc [OF mne, of "g e"] by (simp only: map_append list.map ge x_def)
  have h: "hd (map g ls) = drop (length m) (hd ls)"
    using ne first(1) by (simp add: hd_map g_def)
  have l: "last (map g ls) = drop (length m) (last ls)"
    using ne final(1) by (simp add: last_map g_def)
  have hne: "hd (map g ls) \<noteq> []" unfolding h by (rule first(2))
  have lne: "last (map g ls) \<noteq> []" unfolding l by (rule final(2))
  have x1: "x \<noteq> []"
    unfolding x_def using mne hne by (rule join_nl_nonempty)
  have x2: "hd x = hd (drop (length m) (hd ls))"
    unfolding x_def using hd_join_nl [OF mne hne] by (simp only: h)
  have "last x = last (drop (length m) (last ls))"
    unfolding x_def using last_join_nl [OF mne lne] by (simp only: l)
  also have "\<dots> = last (last ls)" using final(2) by (simp add: last_drop)
  finally have x3: "last x = last (last ls)" .
  have "py_strip (x @ [10]) = x"
  proof (rule py_strip_newline [OF x1])
    show "\<not> is_space (hd x)" unfolding x2 by (rule first(3))
    show "\<not> is_space (last x)" unfolding x3 by (rule final(3))
  qed
  then have "py_strip (dedent (join_nl (ls @ [e]))) @ u_nl = join_nl (map g (ls @ [e]))"
    by (simp only: d j u_nl_def)
  then show ?thesis unfolding g_def .
qed

section \<open>The rendered templates\<close>

lemma build_uniform_list:
  assumes t: "butlast t \<noteq> []"
    and nl: "list_all (\<lambda>l. 10 \<notin> set l) t"
    and m: "m \<noteq> []" "list_all is_blank m"
    and pre: "list_all (\<lambda>l. list_all is_blank l \<or> prefix m l) t"
    and ex: "list_ex (\<lambda>l. \<not> list_all is_blank l \<and> takeWhile is_blank l = m) t"
    and e: "list_all is_blank (last t)"
    and first: "\<not> list_all is_blank (hd t)" "drop (length m) (hd t) \<noteq> []"
      "\<not> is_space (hd (drop (length m) (hd t)))"
    and final: "\<not> list_all is_blank (last (butlast t))"
      "drop (length m) (last (butlast t)) \<noteq> []"
      "\<not> is_space (last (last (butlast t)))"
  shows "py_strip (dedent (join_nl t)) @ u_nl =
         join_nl (map (\<lambda>l. if list_all is_blank l then [] else drop (length m) l) t)"
proof -
  have ne: "t \<noteq> []" using t by auto
  have s: "butlast t @ [last t] = t" using ne by simp
  have h: "hd (butlast t) = hd t" using t by (cases t) auto
  show ?thesis
    using build_uniform [of "butlast t" "last t" m] t nl m pre ex e first final
    unfolding s h by blast
qed

lemmas lit_eval = u_def is_blank_def is_space_def

lemma u_cong: "u s = u s"
  by (rule refl)

lemma list_all_conjD:
  "list_all (\<lambda>l. A l \<and> B l) t \<Longrightarrow> list_all A t"
  "list_all (\<lambda>l. A l \<and> B l) t \<Longrightarrow> list_all B t"
  by (simp_all add: list_all_iff)

lemma list_ex_hdI: "P x \<Longrightarrow> list_ex P (x # xs)"
  by simp

lemma list_all_ConsI: "P x \<Longrightarrow> list_all P xs \<Longrightarrow> list_all P (x # xs)"
  by simp

lemma list_all_NilI: "list_all P []"
  by simp

lemma dedent_line_no_nl:
  "list_all (\<lambda>l. 10 \<notin> set l) t \<Longrightarrow> list_all (\<lambda>l. 10 \<notin> set l) (map dedent_line t)"
  by (induction t) (auto simp: dedent_line_def dest: in_set_dropD)

lemma build_main_cpp_line_facts:
  assumes "10 \<notin> set display_name"
  shows "list_all (\<lambda>l. 10 \<notin> set l \<and> (list_all is_blank l \<or> prefix (u ''        '') l))
           (build_main_cpp_text display_name)"
  unfolding build_main_cpp_text_def using assms
  by (intro list_all_ConsI list_all_NilI conjI; simp add: lit_eval)

lemma build_main_cpp_render:
  assumes "10 \<notin> set display_name"
  shows "build_main_cpp display_name = join_nl (map dedent_line (build_main_cpp_text display_name))"
proof -
  let ?t = "build_main_cpp_text display_name"
  let ?m = "u ''        ''"
  have len: "length ?m = 8" by (simp add: u_def)
  have h: \<open>hd ?t = u ''        #include "Application.hpp"''\<close>
    by (simp add: build_main_cpp_text_def cong: u_cong)
  have l: "last ?t = u ''        ''" by (simp add: build_main_cpp_text_def cong: u_cong)
  have lb: \<open>last (butlast ?t) = u ''        }''\<close>
    by (simp add: build_main_cpp_text_def cong: u_cong)
  have 1: "butlast ?t \<noteq> []" by (simp add: build_main_cpp_text_def cong: u_cong)
  note q = list_all_conjD [OF build_main_cpp_line_facts [OF assms]]
  have 3: "?m \<noteq> []" "list_all is_blank ?m" by (simp_all add: lit_eval)
  have 5: "list_ex (\<lambda>l. \<not> list_all is_blank l \<and> takeWhile is_blank l = ?m) ?t"
    unfolding build_main_cpp_text_def by (rule list_ex_hdI) (simp add: lit_eval)
  have 6: "list_all is_blank (last ?t)" unfolding l by (simp add: lit_eval)
  have 7: "\<not> list_all is_blank (hd ?t)" "drop (length ?m) (hd ?t) \<noteq> []"
      "\<not> is_space (hd (drop (length ?m) (hd ?t)))"
    unfolding h by (simp_all add: lit_eval)
  have 8: "\<not> list_all is_blank (last (butlast ?t))"
      "drop (length ?m) (last (butlast ?t)) \<noteq> []"
      "\<not> is_space (last (last (butlast ?t)))"
    unfolding lb by (simp_all add: lit_eval)
  show ?thesis
    unfolding build_main_cpp_def dedent_line_def
    using build_uniform_list [OF 1 q(1) 3 q(2) 5 6 7 8] by (simp only: len)
qed

lemma build_main_cpp_lines:
  assumes "10 \<notin> set display_name"
  shows "split_nl (build_main_cpp display_name) = map dedent_line (build_main_cpp_text display_name)"
proof -
  have "list_all (\<lambda>l. 10 \<notin> set l) (build_main_cpp_text display_name)"
    by (rule list_all_conjD(1) [OF build_main_cpp_line_facts [OF assms]])
  then have "list_all (\<lambda>l. 10 \<notin> set l) (map dedent_line (build_main_cpp_text display_name))"
    by (rule dedent_line_no_nl)
  moreover have "map dedent_line (build_main_cpp_text display_name) \<noteq> []"
    by (simp add: build_main_cpp_text_def cong: u_cong)
  ultimately show ?thesis
    unfolding build_main_cpp_render [OF assms] by (intro split_nl_join_nl)
qed

lemma build_cmakelists_line_facts:
  assumes "10 \<notin> set project_name"
  shows "list_all (\<lambda>l. 10 \<notin> set l \<and> (list_all is_blank l \<or> prefix (u ''        '') l))
           (build_cmakelists_text project_name)"
  unfolding build_cmakelists_text_def using assms
  by (intro list_all_ConsI list_all_NilI conjI; simp add: lit_eval)

lemma build_cmakelists_render:
  assumes "10 \<notin> set project_name"
  shows "build_cmakelists project_name = join_nl (map dedent_line (build_cmakelists_text project_name))"
proof -
  let ?t = "build_cmakelists_text project_name"
  let ?m = "u ''        ''"
  have len: "length ?m = 8" by (simp add: u_def)
  have h: \<open>hd ?t = u ''        cmake_minimum_required(VERSION 3.21)''\<close>
    by (simp add: build_cmakelists_text_def cong: u_cong)
  have l: "last ?t = u ''        ''" by (simp add: build_cmakelists_text_def cong: u_cong)
  have lb: \<open>last (butlast ?t) = u ''        endif()''\<close>
    by (simp add: build_cmakelists_text_def cong: u_cong)
  have 1: "butlast ?t \<noteq> []" by (simp add: build_cmakelists_text_def cong: u_cong)
  note q = list_all_conjD [OF build_cmakelists_line_facts [OF assms]]
  have 3: "?m \<noteq> []" "list_all is_blank ?m" by (simp_all add: lit_eval)
  have 5: "list_ex (\<lambda>l. \<not> list_all is_blank l \<and> takeWhile is_blank l = ?m) ?t"
    unfolding build_cmakelists_text_def by (rule list_ex_hdI) (simp add: lit_eval)
  have 6: "list_all is_blank (last ?t)" unfolding l by (simp add: lit_eval)
  have 7: "\<not> list_all is_blank (hd ?t)" "drop (length ?m) (hd ?t) \<noteq> []"
      "\<not> is_space (hd (drop (length ?m) (hd ?t)))"
    unfolding h by (simp_all add: lit_eval)
  have 8: "\<not> list_all is_blank (last (butlast ?t))"
      "drop (length ?m) (last (butlast ?t)) \<noteq> []"
      "\<not> is_space (last (last (butlast ?t)))"
    unfolding lb by (simp_all add: lit_eval)
  show ?thesis
    unfolding build_cmakelists_def dedent_line_def
    using build_uniform_list [OF 1 q(1) 3 q(2) 5 6 7 8] by (simp only: len)
qed

lemma build_cmakelists_lines:
  assumes "10 \<notin> set project_name"
  shows "split_nl (build_cmakelists project_name) = map dedent_line (build_cmakelists_text project_name)"
proof -
  have "list_all (\<lambda>l. 10 \<notin> set l) (build_cmakelists_text project_name)"
    by (rule list_all_conjD(1) [OF build_cmakelists_line_facts [OF assms]])
  then have "list_all (\<lambda>l. 10 \<notin> set l) (map dedent_line (build_cmakelists_text project_name))"
    by (rule dedent_line_no_nl)
  moreover have "map dedent_line (build_cmakelists_text project_name) \<noteq> []"
    by (simp add: build_cmakelists_text_def cong: u_cong)
  ultimately show ?thesis
    unfolding build_cmakelists_render [OF assms] by (intro split_nl_join_nl)
qed

lemma slug_no_nl:
  assumes "slugify display_name = Inr slug"
  shows "10 \<notin> set slug"
proof
  assume "10 \<in> set slug"
  with slugify_Inr_shape(2) [OF assms] have "is_slug_char 10 \<or> (10::nat) = 95"
    by (auto simp: list_all_iff)
  then show False by (simp add: is_slug_char_def)
qed

text \<open>
  Claim C3. For every display name with a slug, the build descriptor rendered for that
  slug has the line \<open>project(<slug> VERSION 0.1.0 LANGUAGES CXX)\<close>, sets the C++
  standard to 20, declares glfw at 3.4, glm at 1.0.1, glad at v0.1.36 and imgui at
  v1.90.4, names the executable by \<open>${PROJECT_NAME}\<close>, and differs from the
  descriptor of any other name in the project line only.
\<close>

theorem build_cmakelists_pins:
  assumes "slugify display_name = Inr slug"
  shows \<open>let ls = split_nl (build_cmakelists slug) in
     ls ! 2 = u ''project('' @ slug @ u '' VERSION 0.1.0 LANGUAGES CXX)'' \<and>
     ls ! 4 = u ''set(CMAKE_CXX_STANDARD 20)'' \<and>
     take 5 (drop 19 ls) =
       [u ''FetchContent_Declare('', u ''    glfw'',
        u ''    GIT_REPOSITORY https://github.com/glfw/glfw.git'', u ''    GIT_TAG 3.4'', u '')''] \<and>
     take 5 (drop 25 ls) =
       [u ''FetchContent_Declare('', u ''    glm'',
        u ''    GIT_REPOSITORY https://github.com/g-truc/glm.git'', u ''    GIT_TAG 1.0.1'', u '')''] \<and>
     take 4 (drop 32 ls) =
       [u ''FetchContent_Declare('', u ''    glad'',
        u ''    GIT_REPOSITORY https://github.com/Dav1dde/glad.git'', u ''    GIT_TAG v0.1.36''] \<and>
     take 5 (drop 44 ls) =
       [u ''FetchContent_Declare('', u ''    imgui'',
        u ''    GIT_REPOSITORY https://github.com/ocornut/imgui.git'', u ''    GIT_TAG v1.90.4'', u '')''] \<and>
     ls ! 75 = u ''add_executable(${PROJECT_NAME}'' \<and>
     ls = (split_nl (build_cmakelists []))[2 := ls ! 2]\<close>
proof -
  let ?t = "build_cmakelists_text slug"
  have nl: "10 \<notin> set slug" using assms by (rule slug_no_nl)
  have s: "split_nl (build_cmakelists slug) = map dedent_line ?t"
    using nl by (rule build_cmakelists_lines)
  have s0: "split_nl (build_cmakelists []) = map dedent_line (build_cmakelists_text [])"
    by (rule build_cmakelists_lines) simp
  have len: "length ?t = 88" by (simp add: build_cmakelists_text_def cong: u_cong)
  have 1: \<open>map dedent_line ?t ! 2 = u ''project('' @ slug @ u '' VERSION 0.1.0 LANGUAGES CXX)''\<close>
    by (simp add: len build_cmakelists_text_def cong: u_cong) (simp add: dedent_line_def lit_eval)
  have 2: \<open>map dedent_line ?t ! 4 = u ''set(CMAKE_CXX_STANDARD 20)''\<close>
    by (simp add: len build_cmakelists_text_def cong: u_cong) (simp add: dedent_line_def lit_eval)
  have 3: \<open>take 5 (drop 19 (map dedent_line ?t)) =
       [u ''FetchContent_Declare('', u ''    glfw'',
        u ''    GIT_REPOSITORY https://github.com/glfw/glfw.git'', u ''    GIT_TAG 3.4'', u '')'']\<close>
    by (simp add: build_cmakelists_text_def cong: u_cong) (simp add: dedent_line_def lit_eval)
  have 4: \<open>take 5 (drop 25 (map dedent_line ?t)) =
       [u ''FetchContent_Declare('', u ''    glm'',
        u ''    GIT_REPOSITORY https://github.com/g-truc/glm.git'', u ''    GIT_TAG 1.0.1'', u '')'']\<close>
    by (simp add: build_cmakelists_text_def cong: u_cong) (simp add: dedent_line_def lit_eval)
  have 5: \<open>take 4 (drop 32 (map dedent_line ?t)) =
       [u ''FetchContent_Declare('', u ''    glad'',
        u ''    GIT_REPOSITORY https://github.com/Dav1dde/glad.git'', u ''    GIT_TAG v0.1.36'']\<close>
    by (simp add: build_cmakelists_text_def cong: u_cong) (simp add: dedent_line_def lit_eval)
  have 6: \<open>take 5 (drop 44 (map dedent_line ?t)) =
       [u ''FetchContent_Declare('', u ''    imgui'',
        u ''    GIT_REPOSITORY https://github.com/ocornut/imgui.git'', u ''    GIT_TAG v1.90.4'', u '')'']\<close>
    by (simp add: build_cmakelists_text_def cong: u_cong) (simp add: dedent_line_def lit_eval)
  have 7: \<open>map dedent_line ?t ! 75 = u ''add_executable(${PROJECT_NAME}''\<close>
    by (simp add: len build_cmakelists_text_def cong: u_cong) (simp add: dedent_line_def lit_eval)
  have e: "?t = (build_cmakelists_text [])[2 := ?t ! 2]"
    by (simp add: build_cmakelists_text_def eval_nat_numeral cong: u_cong)
  have n: "map dedent_line ?t ! 2 = dedent_line (?t ! 2)" using len by simp
  have "map dedent_line ?t = map dedent_line ((build_cmakelists_text [])[2 := ?t ! 2])"
    using e by (rule arg_cong)
  also have "\<dots> = (map dedent_line (build_cmakelists_text []))[2 := dedent_line (?t ! 2)]"
    by (rule map_update)
  finally have 8: "map dedent_line ?t =
      (map dedent_line (build_cmakelists_text []))[2 := map dedent_line ?t ! 2]"
    unfolding n .
  show ?thesis unfolding Let_def s s0 using 1 2 3 4 5 6 7 8 by (simp only: simp_thms)
qed

theorem build_cmakelists_pins_witness:
  \<open>slugify (u ''My Game!!'') = Inr (u ''my_game'') \<and>
   (let ls = split_nl (build_cmakelists (u ''my_game'')) in
     ls ! 2 = u ''project('' @ u ''my_game'' @ u '' VERSION 0.1.0 LANGUAGES CXX)'' \<and>
     ls ! 4 = u ''set(CMAKE_CXX_STANDARD 20)'' \<and>
     take 5 (drop 19 ls) =
       [u ''FetchContent_Declare('', u ''    glfw'',
        u ''    GIT_REPOSITORY https://github.com/glfw/glfw.git'', u ''    GIT_TAG 3.4'', u '')''] \<and>
     take 5 (drop 25 ls) =
       [u ''FetchContent_Declare('', u ''    glm'',
        u ''    GIT_REPOSITORY https://github.com/g-truc/glm.git'', u ''    GIT_TAG 1.0.1'', u '')''] \<and>
     take 4 (drop 32 ls) =
       [u ''FetchContent_Declare('', u ''    glad'',
        u ''    GIT_REPOSITORY https://github.com/Dav1dde/glad.git'', u ''    GIT_TAG v0.1.36''] \<and>
     take 5 (drop 44 ls) =
       [u ''FetchContent_Declare('', u ''    imgui'',
        u ''    GIT_REPOSITORY https://github.com/ocornut/imgui.git'', u ''    GIT_TAG v1.90.4'', u '')''] \<and>
     ls ! 75 = u ''add_executable(${PROJECT_NAME}'' \<and>
     ls = (split_nl (build_cmakelists []))[2 := ls ! 2])\<close>
proof -
  have h: "slugify (u ''My Game!!'') = Inr (u ''my_game'')" by (simp add: slug_eval)
  show ?thesis by (rule conjI [OF h build_cmakelists_pins [OF h]])
qed

section \<open>The rendered entry point\<close>

lemma join_nl_Cons: "ys \<noteq> [] \<Longrightarrow> join_nl (y # ys) = y @ 10 # join_nl ys"
  by (cases ys) simp_all

lemma join_nl_append:
  "xs \<noteq> [] \<Longrightarrow> ys \<noteq> [] \<Longrightarrow> join_nl (xs @ ys) = join_nl xs @ 10 # join_nl ys"
proof (induction xs rule: join_nl.induct)
  case 1
  then show ?case by simp
next
  case (2 l)
  then show ?case by (simp add: join_nl_Cons)
next
  case (3 l m ls)
  then show ?case by simp
qed

text \<open>
  Claim C4, as the code has it. For every display name without a line break, line 9 of
  the rendered entry point constructs the application with that very name, not the
  slug, as its title, and with the dimensions 1280 and 720.
\<close>

theorem build_main_cpp_title:
  assumes "10 \<notin> set display_name"
  shows \<open>take 3 (drop 7 (split_nl (build_main_cpp display_name))) =
     [u ''    try {'',
      u ''        Application app("'' @ display_name @ u ''", 1280, 720);'',
      u ''        app.run();'']\<close>
proof -
  have s: "split_nl (build_main_cpp display_name) = map dedent_line (build_main_cpp_text display_name)"
    using assms by (rule build_main_cpp_lines)
  show ?thesis unfolding s
    by (simp add: build_main_cpp_text_def cong: u_cong) (simp add: dedent_line_def lit_eval)
qed

theorem build_main_cpp_title_witness:
  \<open>10 \<notin> set (u ''My Game!!'') \<and>
   take 3 (drop 7 (split_nl (build_main_cpp (u ''My Game!!'')))) =
     [u ''    try {'',
      u ''        Application app("'' @ u ''My Game!!'' @ u ''", 1280, 720);'',
      u ''        app.run();'']\<close>
proof -
  have h: "10 \<notin> set (u ''My Game!!'')" by (simp add: u_def)
  show ?thesis by (rule conjI [OF h build_main_cpp_title [OF h]])
qed

lemma build_main_cpp_splice:
  assumes "10 \<notin> set d"
  shows \<open>build_main_cpp d =
     (join_nl (map dedent_line (take 8 (build_main_cpp_text []))) @ 10 #
        u ''        Application app("'') @ d @
     (u ''", 1280, 720);'' @ 10 # join_nl (map dedent_line (drop 9 (build_main_cpp_text []))))\<close>
proof -
  let ?a = \<open>u ''                Application app("''\<close>
  let ?b = \<open>u ''", 1280, 720);''\<close>
  let ?A = "take 8 (build_main_cpp_text [])"
  let ?B = "drop 9 (build_main_cpp_text [])"
  have t: "build_main_cpp_text d = ?A @ (?a @ d @ ?b) # ?B"
    by (simp add: build_main_cpp_text_def cong: u_cong)
  have A: "map dedent_line ?A \<noteq> []" and B: "map dedent_line ?B \<noteq> []"
    by (simp_all add: build_main_cpp_text_def cong: u_cong)
  have l: \<open>dedent_line (?a @ d @ ?b) = u ''        Application app("'' @ d @ ?b\<close>
    by (simp add: dedent_line_def lit_eval)
  have "build_main_cpp d = join_nl (map dedent_line (build_main_cpp_text d))"
    using assms by (rule build_main_cpp_render)
  also have "\<dots> = join_nl (map dedent_line ?A @ dedent_line (?a @ d @ ?b) # map dedent_line ?B)"
    unfolding t by simp
  also have "\<dots> = join_nl (map dedent_line ?A) @ 10 #
      dedent_line (?a @ d @ ?b) @ 10 # join_nl (map dedent_line ?B)"
    using A B by (simp only: join_nl_append [OF A] join_nl_Cons [OF B] list.distinct not_False_eq_True)
  finally show ?thesis unfolding l by simp
qed


text \<open>
  Claim C10, as the code has it. \<open>build_main_cpp\<close> escapes nothing: for every display
  name without a line break the rendered source is the source rendered for the empty
  name with the display name spliced in, character for character, between the double
  quotes of the constructor call. A double quote or a backslash in the name therefore
  stands in the C++ source as it is.
\<close>

theorem build_main_cpp_verbatim:
  assumes "10 \<notin> set display_name"
  shows \<open>build_main_cpp display_name =
           take 135 (build_main_cpp []) @ display_name @ drop 135 (build_main_cpp []) \<and>
         suffix (u ''Application app("'') (take 135 (build_main_cpp [])) \<and>
         prefix (u ''", 1280, 720);'') (drop 135 (build_main_cpp []))\<close>
proof -
  define P where \<open>P = join_nl (map dedent_line (take 8 (build_main_cpp_text []))) @ 10 #
        u ''        Application app("''\<close>
  define Q where \<open>Q = u ''", 1280, 720);'' @
        10 # join_nl (map dedent_line (drop 9 (build_main_cpp_text [])))\<close>
  have sp: "build_main_cpp d = P @ d @ Q" if "10 \<notin> set d" for d
    unfolding P_def Q_def using that by (rule build_main_cpp_splice)
  have len: "length P = 135"
    unfolding P_def by (simp add: build_main_cpp_text_def dedent_line_def lit_eval)
  have b0: "build_main_cpp [] = P @ Q" using sp [of "[]"] by simp
  have tk: "take 135 (build_main_cpp []) = P" unfolding b0 using len by simp
  have dr: "drop 135 (build_main_cpp []) = Q" unfolding b0 using len by simp
  have \<open>P = (join_nl (map dedent_line (take 8 (build_main_cpp_text []))) @ 10 # u ''        '') @
        u ''Application app("''\<close>
    unfolding P_def by (simp add: u_def)
  then have sf: \<open>suffix (u ''Application app("'') P\<close> by (rule suffixI)
  have pf: \<open>prefix (u ''", 1280, 720);'') Q\<close> unfolding Q_def by simp
  show ?thesis unfolding tk dr using sp [OF assms] sf pf by simp
qed

theorem build_main_cpp_verbatim_witness:
  \<open>10 \<notin> set (u ''say "hi" C:'' @ [92] @ u ''n'') \<and>
   (build_main_cpp (u ''say "hi" C:'' @ [92] @ u ''n'') =
           take 135 (build_main_cpp []) @ (u ''say "hi" C:'' @ [92] @ u ''n'') @
           drop 135 (build_main_cpp []) \<and>
         suffix (u ''Application app("'') (take 135 (build_main_cpp [])) \<and>
         prefix (u ''", 1280, 720);'') (drop 135 (build_main_cpp [])))\<close>
proof -
  have h: \<open>10 \<notin> set (u ''say "hi" C:'' @ [92] @ u ''n'')\<close> by (simp add: u_def)
  show ?thesis by (rule conjI [OF h build_main_cpp_verbatim [OF h]])
qed

lemma build_main_cpp_title_counterexample_render:
  \<open>build_main_cpp (u ''a'' @ [10] @ u ''          b'') = join_nl (map dedent_line
    [u ''        #include "Application.hpp"'',
     [],
     u ''        #include <cstdio>'',
     u ''        #include <cstdlib>'',
     u ''        #include <exception>'',
     [],
     u ''        int main() {'',
     u ''            try {'',
     u ''                Application app("'' @ u ''a'',
     u ''          b'' @ u ''", 1280, 720);'',
     u ''                app.run();'',
     u ''            } catch (const std::exception& e) {'',
     u ''                std::fprintf(stderr, "Fatal error: %s'' @ [92] @ u ''n", e.what());'',
     u ''                return EXIT_FAILURE;'',
     u ''            }'',
     u ''            return EXIT_SUCCESS;'',
     u ''        }'',
     u ''        ''])\<close>
proof -
  let ?T = \<open>[u ''        #include "Application.hpp"'',
     [],
     u ''        #include <cstdio>'',
     u ''        #include <cstdlib>'',
     u ''        #include <exception>'',
     [],
     u ''        int main() {'',
     u ''            try {'',
     u ''                Application app("'' @ u ''a'',
     u ''          b'' @ u ''", 1280, 720);'',
     u ''                app.run();'',
     u ''            } catch (const std::exception& e) {'',
     u ''                std::fprintf(stderr, "Fatal error: %s'' @ [92] @ u ''n", e.what());'',
     u ''                return EXIT_FAILURE;'',
     u ''            }'',
     u ''            return EXIT_SUCCESS;'',
     u ''        }'',
     u ''        '']\<close>
  let ?m = "u ''        ''"
  have j: \<open>join_nl (build_main_cpp_text (u ''a'' @ [10] @ u ''          b'')) = join_nl ?T\<close>
    by (simp add: build_main_cpp_text_def cong: u_cong)
  have len: "length ?m = 8" by (simp add: u_def)
  have q: "list_all (\<lambda>l. 10 \<notin> set l \<and> (list_all is_blank l \<or> prefix ?m l)) ?T"
    by (intro list_all_ConsI list_all_NilI conjI; simp add: lit_eval)
  have h: \<open>hd ?T = u ''        #include "Application.hpp"''\<close> by (simp cong: u_cong)
  have l: "last ?T = u ''        ''" by (simp cong: u_cong)
  have lb: \<open>last (butlast ?T) = u ''        }''\<close> by (simp cong: u_cong)
  have 1: "butlast ?T \<noteq> []" by (simp cong: u_cong)
  have 3: "?m \<noteq> []" "list_all is_blank ?m" by (simp_all add: lit_eval)
  have 5: "list_ex (\<lambda>l. \<not> list_all is_blank l \<and> takeWhile is_blank l = ?m) ?T"
    by (rule list_ex_hdI) (simp add: lit_eval)
  have 6: "list_all is_blank (last ?T)" unfolding l by (simp add: lit_eval)
  have 7: "\<not> list_all is_blank (hd ?T)" "drop (length ?m) (hd ?T) \<noteq> []"
      "\<not> is_space (hd (drop (length ?m) (hd ?T)))"
    unfolding h by (simp_all add: lit_eval)
  have 8: "\<not> list_all is_blank (last (butlast ?T))"
      "drop (length ?m) (last (butlast ?T)) \<noteq> []"
      "\<not> is_space (last (last (butlast ?T)))"
    unfolding lb by (simp_all add: lit_eval)
  show ?thesis
    unfolding build_main_cpp_def j dedent_line_def
    using build_uniform_list [OF 1 list_all_conjD(1) [OF q] 3 list_all_conjD(2) [OF q] 5 6 7 8]
    by (simp only: len)
qed

text \<open>
  Claim C4 as stated fails. The display name \<open>a\<close>, line break, ten blanks, \<open>b\<close>
  is spliced into the template before \<open>dedent\<close> runs; \<open>dedent\<close> then takes the margin of
  eight blanks from the second line of the name too, and the constructor call with the
  literal name occurs nowhere in the rendered source.
\<close>

theorem build_main_cpp_title_counterexample:
  \<open>\<not> sublist (u ''Application app("'' @ (u ''a'' @ [10] @ u ''          b'') @ u ''", 1280, 720);'' ) (build_main_cpp (u ''a'' @ [10] @ u ''          b''))\<close>
  unfolding build_main_cpp_title_counterexample_render
  by (simp add: dedent_line_def lit_eval sublist_code)

lemma build_main_cpp_verbatim_counterexample_render:
  \<open>build_main_cpp (u ''x'' @ [10] @ u ''        y'') = join_nl (map dedent_line
    [u ''        #include "Application.hpp"'',
     [],
     u ''        #include <cstdio>'',
     u ''        #include <cstdlib>'',
     u ''        #include <exception>'',
     [],
     u ''        int main() {'',
     u ''            try {'',
     u ''                Application app("'' @ u ''x'',
     u ''        y'' @ u ''", 1280, 720);'',
     u ''                app.run();'',
     u ''            } catch (const std::exception& e) {'',
     u ''                std::fprintf(stderr, "Fatal error: %s'' @ [92] @ u ''n", e.what());'',
     u ''                return EXIT_FAILURE;'',
     u ''            }'',
     u ''            return EXIT_SUCCESS;'',
     u ''        }'',
     u ''        ''])\<close>
proof -
  let ?T = \<open>[u ''        #include "Application.hpp"'',
     [],
     u ''        #include <cstdio>'',
     u ''        #include <cstdlib>'',
     u ''        #include <exception>'',
     [],
     u ''        int main() {'',
     u ''            try {'',
     u ''                Application app("'' @ u ''x'',
     u ''        y'' @ u ''", 1280, 720);'',
     u ''                app.run();'',
     u ''            } catch (const std::exception& e) {'',
     u ''                std::fprintf(stderr, "Fatal error: %s'' @ [92] @ u ''n", e.what());'',
     u ''                return EXIT_FAILURE;'',
     u ''            }'',
     u ''            return EXIT_SUCCESS;'',
     u ''        }'',
     u ''        '']\<close>
  let ?m = "u ''        ''"
  have j: \<open>join_nl (build_main_cpp_text (u ''x'' @ [10] @ u ''        y'')) = join_nl ?T\<close>
    by (simp add: build_main_cpp_text_def cong: u_cong)
  have len: "length ?m = 8" by (simp add: u_def)
  have q: "list_all (\<lambda>l. 10 \<notin> set l \<and> (list_all is_blank l \<or> prefix ?m l)) ?T"
    by (intro list_all_ConsI list_all_NilI conjI; simp add: lit_eval)
  have h: \<open>hd ?T = u ''        #include "Application.hpp"''\<close> by (simp cong: u_cong)
  have l: "last ?T = u ''        ''" by (simp cong: u_cong)
  have lb: \<open>last (butlast ?T) = u ''        }''\<close> by (simp cong: u_cong)
  have 1: "butlast ?T \<noteq> []" by (simp cong: u_cong)
  have 3: "?m \<noteq> []" "list_all is_blank ?m" by (simp_all add: lit_eval)
  have 5: "list_ex (\<lambda>l. \<not> list_all is_blank l \<and> takeWhile is_blank l = ?m) ?T"
    by (rule list_ex_hdI) (simp add: lit_eval)
  have 6: "list_all is_blank (last ?T)" unfolding l by (simp add: lit_eval)
  have 7: "\<not> list_all is_blank (hd ?T)" "drop (length ?m) (hd ?T) \<noteq> []"
      "\<not> is_space (hd (drop (length ?m) (hd ?T)))"
    unfolding h by (simp_all add: lit_eval)
  have 8: "\<not> list_all is_blank (last (butlast ?T))"
      "drop (length ?m) (last (butlast ?T)) \<noteq> []"
      "\<not> is_space (last (last (butlast ?T)))"
    unfolding lb by (simp_all add: lit_eval)
  show ?thesis
    unfolding build_main_cpp_def j dedent_line_def
    using build_uniform_list [OF 1 list_all_conjD(1) [OF q] 3 list_all_conjD(2) [OF q] 5 6 7 8]
    by (simp only: len)
qed

text \<open>
  Claim C10 as stated fails. The display name \<open>x\<close>, line break, eight blanks,
  \<open>y\<close> does not occur in the rendered source: \<open>dedent\<close> removes the eight blanks
  that follow the line break.
\<close>

theorem build_main_cpp_verbatim_counterexample:
  \<open>\<not> sublist (u ''x'' @ [10] @ u ''        y'' ) (build_main_cpp (u ''x'' @ [10] @ u ''        y''))\<close>
  unfolding build_main_cpp_verbatim_counterexample_render
  by (simp add: dedent_line_def lit_eval sublist_code)

end
